theory Spec2Isabelle
  imports Complex_Main "HOL-Library.AList" "HOL-Library.Multiset"
begin

section \<open>JavaScript numbers\<close>

text \<open>
  The program is TypeScript; every quantity (price, size, cost, timestamp) is a
  JavaScript \<open>number\<close>.  A number is modelled as an exact rational or one of the three
  special values of IEEE arithmetic, so that a division by zero, a failed
  \<open>parseFloat\<close> and the truthiness tests of \<open>||\<close> are branches of the model.
  Two things are idealised and are not claimed anywhere below: results are not rounded
  to the nearest double (the rationals are exact and unbounded), and the sign of zero
  is not tracked (a zero divisor counts as \<open>+0\<close>).
\<close>

datatype jsnum = Fin rat | PInf | NInf | NaN

fun isFin :: "jsnum \<Rightarrow> bool" where
  "isFin (Fin _) = True"
| "isFin _ = False"

fun the_Fin :: "jsnum \<Rightarrow> rat" where
  "the_Fin (Fin a) = a"
| "the_Fin _ = 0"

instantiation jsnum :: "{zero, one, plus, minus, uminus, times, inverse, ord}"
begin

definition zero_jsnum :: jsnum where
  "zero_jsnum = Fin 0"

definition one_jsnum :: jsnum where
  "one_jsnum = Fin 1"

fun uminus_jsnum :: "jsnum \<Rightarrow> jsnum" where
  "uminus_jsnum (Fin a) = Fin (- a)"
| "uminus_jsnum PInf = NInf"
| "uminus_jsnum NInf = PInf"
| "uminus_jsnum NaN = NaN"

fun plus_jsnum :: "jsnum \<Rightarrow> jsnum \<Rightarrow> jsnum" where
  "plus_jsnum NaN _ = NaN"
| "plus_jsnum _ NaN = NaN"
| "plus_jsnum (Fin a) (Fin b) = Fin (a + b)"
| "plus_jsnum (Fin _) PInf = PInf"
| "plus_jsnum (Fin _) NInf = NInf"
| "plus_jsnum PInf (Fin _) = PInf"
| "plus_jsnum NInf (Fin _) = NInf"
| "plus_jsnum PInf PInf = PInf"
| "plus_jsnum NInf NInf = NInf"
| "plus_jsnum PInf NInf = NaN"
| "plus_jsnum NInf PInf = NaN"

definition minus_jsnum :: "jsnum \<Rightarrow> jsnum \<Rightarrow> jsnum" where
  "minus_jsnum a b = a + (- b)"

fun times_jsnum :: "jsnum \<Rightarrow> jsnum \<Rightarrow> jsnum" where
  "times_jsnum NaN _ = NaN"
| "times_jsnum _ NaN = NaN"
| "times_jsnum (Fin a) (Fin b) = Fin (a * b)"
| "times_jsnum (Fin a) PInf = (if a = 0 then NaN else if 0 < a then PInf else NInf)"
| "times_jsnum (Fin a) NInf = (if a = 0 then NaN else if 0 < a then NInf else PInf)"
| "times_jsnum PInf (Fin b) = (if b = 0 then NaN else if 0 < b then PInf else NInf)"
| "times_jsnum NInf (Fin b) = (if b = 0 then NaN else if 0 < b then NInf else PInf)"
| "times_jsnum PInf PInf = PInf"
| "times_jsnum NInf NInf = PInf"
| "times_jsnum PInf NInf = NInf"
| "times_jsnum NInf PInf = NInf"

fun divide_jsnum :: "jsnum \<Rightarrow> jsnum \<Rightarrow> jsnum" where
  "divide_jsnum NaN _ = NaN"
| "divide_jsnum _ NaN = NaN"
| "divide_jsnum (Fin a) (Fin b) =
     (if b \<noteq> 0 then Fin (a / b)
      else if a = 0 then NaN else if 0 < a then PInf else NInf)"
| "divide_jsnum (Fin _) PInf = Fin 0"
| "divide_jsnum (Fin _) NInf = Fin 0"
| "divide_jsnum PInf (Fin b) = (if 0 \<le> b then PInf else NInf)"
| "divide_jsnum NInf (Fin b) = (if 0 \<le> b then NInf else PInf)"
| "divide_jsnum PInf PInf = NaN"
| "divide_jsnum NInf NInf = NaN"
| "divide_jsnum PInf NInf = NaN"
| "divide_jsnum NInf PInf = NaN"

definition inverse_jsnum :: "jsnum \<Rightarrow> jsnum" where
  "inverse_jsnum (a::jsnum) = divide (Fin 1) a"

text \<open>\<open>a < b\<close> and \<open>a <= b\<close> of the language: false as soon as an operand is NaN.\<close>

fun less_jsnum :: "jsnum \<Rightarrow> jsnum \<Rightarrow> bool" where
  "less_jsnum NaN _ = False"
| "less_jsnum _ NaN = False"
| "less_jsnum (Fin a) (Fin b) = (a < b)"
| "less_jsnum (Fin _) PInf = True"
| "less_jsnum (Fin _) NInf = False"
| "less_jsnum PInf _ = False"
| "less_jsnum NInf (Fin _) = True"
| "less_jsnum NInf PInf = True"
| "less_jsnum NInf NInf = False"

fun less_eq_jsnum :: "jsnum \<Rightarrow> jsnum \<Rightarrow> bool" where
  "less_eq_jsnum NaN _ = False"
| "less_eq_jsnum _ NaN = False"
| "less_eq_jsnum (Fin a) (Fin b) = (a \<le> b)"
| "less_eq_jsnum (Fin _) PInf = True"
| "less_eq_jsnum (Fin _) NInf = False"
| "less_eq_jsnum PInf (Fin _) = False"
| "less_eq_jsnum PInf PInf = True"
| "less_eq_jsnum PInf NInf = False"
| "less_eq_jsnum NInf _ = True"

instance ..

end

text \<open>\<open>a === b\<close> on numbers: NaN equals nothing, itself included.\<close>

definition js_eq :: "jsnum \<Rightarrow> jsnum \<Rightarrow> bool" where
  "js_eq a b = (a \<noteq> NaN \<and> b \<noteq> NaN \<and> a = b)"

text \<open>Truthiness of a number: \<open>0\<close> and NaN are falsy.\<close>

definition truthy :: "jsnum \<Rightarrow> bool" where
  "truthy a = (a \<noteq> Fin 0 \<and> a \<noteq> NaN)"

text \<open>\<open>a || d\<close> on numbers, and \<open>x?.field || d\<close> where \<open>x\<close> may be undefined.\<close>

definition js_or :: "jsnum \<Rightarrow> jsnum \<Rightarrow> jsnum" where
  "js_or a d = (if truthy a then a else d)"

definition js_or_undef :: "jsnum option \<Rightarrow> jsnum \<Rightarrow> jsnum" where
  "js_or_undef a d = (case a of None \<Rightarrow> d | Some v \<Rightarrow> js_or v d)"

text \<open>\<open>Math.min(a, b)\<close>: NaN if an operand is NaN.\<close>

definition js_min :: "jsnum \<Rightarrow> jsnum \<Rightarrow> jsnum" where
  "js_min a b = (if a = NaN \<or> b = NaN then NaN else if a \<le> b then a else b)"

subsection \<open>Array.prototype.sort with a comparator\<close>

text \<open>
  \<open>xs.sort(cmp)\<close> is a stable sort: \<open>a\<close> goes after \<open>b\<close> when \<open>cmp(a, b) > 0\<close>, and
  a comparator result that is \<open>0\<close> or NaN keeps the two in their order.  With a
  consistent comparator (all keys are numbers other than NaN) the result of a stable
  sort is unique, and it is the one computed here by insertion.  With NaN among the keys
  the language leaves the order to the implementation; only the elements of the result,
  not their order, are then taken from this model.
\<close>

fun js_insert :: "('a \<Rightarrow> 'a \<Rightarrow> jsnum) \<Rightarrow> 'a \<Rightarrow> 'a list \<Rightarrow> 'a list" where
  "js_insert cmp x [] = [x]"
| "js_insert cmp x (y # ys) =
     (if Fin 0 < cmp x y then y # js_insert cmp x ys else x # y # ys)"

fun js_sort :: "('a \<Rightarrow> 'a \<Rightarrow> jsnum) \<Rightarrow> 'a list \<Rightarrow> 'a list" where
  "js_sort cmp [] = []"
| "js_sort cmp (x # xs) = js_insert cmp x (js_sort cmp xs)"

subsection \<open>parseFloat and parseInt\<close>

text \<open>
  \<open>parseFloat(s)\<close> skips leading white space and reads the longest prefix that is a
  decimal literal: an optional sign, then \<open>Infinity\<close>, or digits with an optional
  fraction and an optional exponent.  It is NaN when there is no such prefix.
\<close>

definition is_ws :: "char \<Rightarrow> bool" where
  "is_ws c = (c \<in> set [CHR '' '', CHR 0x09, CHR 0x0A, CHR 0x0B, CHR 0x0C, CHR 0x0D])"

definition is_digit :: "char \<Rightarrow> bool" where
  "is_digit c = (48 \<le> (of_char c :: nat) \<and> (of_char c :: nat) \<le> 57)"

definition digit_val :: "char \<Rightarrow> nat" where
  "digit_val c = of_char c - 48"

definition digits_val :: "string \<Rightarrow> nat" where
  "digits_val ds = foldl (\<lambda>n c. 10 * n + digit_val c) 0 ds"

text \<open>An optional sign: \<open>True\<close> when it is a minus.\<close>

fun read_sign :: "string \<Rightarrow> bool \<times> string" where
  "read_sign [] = (False, [])"
| "read_sign (c # cs) =
     (if c = CHR ''-'' then (True, cs) else if c = CHR ''+'' then (False, cs)
      else (False, c # cs))"

text \<open>The exponent part after the mantissa, \<open>0\<close> when there is none that is well formed.\<close>

fun read_exponent :: "string \<Rightarrow> int" where
  "read_exponent [] = 0"
| "read_exponent (c # cs) =
     (if c = CHR ''e'' \<or> c = CHR ''E'' then
        (let (neg, r) = read_sign cs; ds = takeWhile is_digit r
         in if ds = [] then 0
            else if neg then - int (digits_val ds) else int (digits_val ds))
      else 0)"

definition pow10 :: "int \<Rightarrow> rat" where
  "pow10 e = (if 0 \<le> e then 10 ^ nat e else 1 / 10 ^ nat (- e))"

definition parseFloat :: "string \<Rightarrow> jsnum" where
  "parseFloat s =
     (let (neg, r) = read_sign (dropWhile is_ws s)
      in if take 8 r = ''Infinity'' then (if neg then NInf else PInf)
         else
           let ip = takeWhile is_digit r;
               r1 = dropWhile is_digit r;
               fp = (case r1 of [] \<Rightarrow> [] | c # cs \<Rightarrow>
                       if c = CHR ''.'' then takeWhile is_digit cs else []);
               r2 = (case r1 of [] \<Rightarrow> [] | c # cs \<Rightarrow>
                       if c = CHR ''.'' then dropWhile is_digit cs else r1)
           in if ip = [] \<and> fp = [] then NaN
              else
                let m = of_nat (digits_val ip)
                        + of_nat (digits_val fp) / 10 ^ length fp;
                    v = m * pow10 (read_exponent r2)
                in Fin (if neg then - v else v))"

text \<open>
  \<open>parseInt(s)\<close> with no radix: leading white space, an optional sign, then hexadecimal
  digits after \<open>0x\<close> or \<open>0X\<close>, decimal digits otherwise; NaN when no digit is read.
\<close>

definition is_hex :: "char \<Rightarrow> bool" where
  "is_hex c = (is_digit c \<or> (97 \<le> (of_char c :: nat) \<and> (of_char c :: nat) \<le> 102)
               \<or> (65 \<le> (of_char c :: nat) \<and> (of_char c :: nat) \<le> 70))"

definition hex_val :: "char \<Rightarrow> nat" where
  "hex_val c = (if is_digit c then digit_val c
                else if 97 \<le> (of_char c :: nat) then of_char c - 87 else of_char c - 55)"

definition parseInt :: "string \<Rightarrow> jsnum" where
  "parseInt s =
     (let (neg, r) = read_sign (dropWhile is_ws s);
          hex = (take 2 r = ''0x'' \<or> take 2 r = ''0X'');
          ds = (if hex then takeWhile is_hex (drop 2 r) else takeWhile is_digit r)
      in if ds = [] then NaN
         else
           let n = (if hex then foldl (\<lambda>n c. 16 * n + hex_val c) 0 ds else digits_val ds)
           in Fin (if neg then - of_nat n else of_nat n))"

section \<open>The feed client (src/websocket/client.ts)\<close>

datatype Side = BUY | SELL

text \<open>
  The interfaces of src/types.ts.  A field \<open>f\<close> of an interface is written with a short
  prefix of the interface, since several interfaces share field names; a variable
  \<open>size\<close> of the source is written \<open>sz\<close>.
\<close>

record OrderSummary =
  os_price :: string
  os_size :: string

record BookMessage =
  bm_asset_id :: string
  bm_bids :: "OrderSummary list option"
  bm_asks :: "OrderSummary list option"
  bm_buys :: "OrderSummary list option"
  bm_sells :: "OrderSummary list option"
  bm_timestamp :: string

record LastTradeMessage =
  lt_asset_id :: string
  lt_price :: string
  lt_side :: Side
  lt_size :: string
  lt_timestamp :: string

record PriceChange =
  pc_asset_id :: string
  pc_price :: string
  pc_size :: string
  pc_side :: Side

record PriceChangeMessage =
  pcm_price_changes :: "PriceChange list"
  pcm_timestamp :: string

record Trade =
  t_timestamp :: jsnum
  t_side :: Side
  t_price :: jsnum
  t_size :: jsnum
  t_notional :: jsnum

record OrderBookLevel =
  l_price :: jsnum
  l_size :: jsnum

record OrderBook =
  bids :: "OrderBookLevel list"
  asks :: "OrderBookLevel list"
  lastUpdate :: jsnum

text \<open>The state of \<open>PolymarketWebSocketClient\<close> that the message handlers read and write.\<close>

record Client =
  tokenId :: string
  trades :: "Trade list"
  orderBook :: OrderBook

definition newClient :: "string \<Rightarrow> Client" where
  "newClient tid =
     \<lparr>tokenId = tid, trades = [],
      orderBook = \<lparr>bids = [], asks = [], lastUpdate = Fin 0\<rparr>\<rparr>"

definition parseLevel :: "OrderSummary \<Rightarrow> OrderBookLevel" where
  "parseLevel b = \<lparr>l_price = parseFloat (os_price b), l_size = parseFloat (os_size b)\<rparr>"

text \<open>The comparators of the two sides: \<open>b.price - a.price\<close> for bids, \<open>a.price - b.price\<close> for asks.\<close>

definition cmpDesc :: "OrderBookLevel \<Rightarrow> OrderBookLevel \<Rightarrow> jsnum" where
  "cmpDesc a b = l_price b - l_price a"

definition cmpAsc :: "OrderBookLevel \<Rightarrow> OrderBookLevel \<Rightarrow> jsnum" where
  "cmpAsc a b = l_price a - l_price b"

text \<open>
  A book message carries its levels as \<open>bids\<close> and \<open>asks\<close> or as \<open>buys\<close> and \<open>sells\<close>;
  a field that is absent is \<open>None\<close>.  \<open>bidData\<close> is \<open>message.bids || message.buys || []\<close>
  (an array, empty or not, is truthy).
\<close>

definition bidData :: "BookMessage \<Rightarrow> OrderSummary list" where
  "bidData message =
     (case bm_bids message of Some b \<Rightarrow> b
      | None \<Rightarrow> (case bm_buys message of Some b \<Rightarrow> b | None \<Rightarrow> []))"

definition askData :: "BookMessage \<Rightarrow> OrderSummary list" where
  "askData message =
     (case bm_asks message of Some a \<Rightarrow> a
      | None \<Rightarrow> (case bm_sells message of Some a \<Rightarrow> a | None \<Rightarrow> []))"

definition handleBookMessage :: "BookMessage \<Rightarrow> Client \<Rightarrow> Client" where
  "handleBookMessage message c =
     (if bm_asset_id message \<noteq> tokenId c then c
      else c\<lparr>orderBook :=
               \<lparr>bids = js_sort cmpDesc (map parseLevel (bidData message)),
                asks = js_sort cmpAsc (map parseLevel (askData message)),
                lastUpdate = parseInt (bm_timestamp message)\<rparr>\<rparr>)"

definition mkTrade :: "LastTradeMessage \<Rightarrow> Trade" where
  "mkTrade message =
     (let price = parseFloat (lt_price message); sz = parseFloat (lt_size message)
      in \<lparr>t_timestamp = parseInt (lt_timestamp message), t_side = lt_side message,
          t_price = price, t_size = sz, t_notional = price * sz\<rparr>)"

text \<open>
  \<open>unshift\<close> puts the trade in front; the buffer is cut to its first 100 entries when it
  is longer than that.
\<close>

definition handleTradeMessage :: "LastTradeMessage \<Rightarrow> Client \<Rightarrow> Client" where
  "handleTradeMessage message c =
     (let ts = mkTrade message # trades c
      in c\<lparr>trades := (if length ts > 100 then take 100 ts else ts)\<rparr>)"

text \<open>\<open>levels.findIndex((l) => l.price === price)\<close>, \<open>None\<close> for \<open>-1\<close>.\<close>

fun findIndex :: "('a \<Rightarrow> bool) \<Rightarrow> 'a list \<Rightarrow> nat option" where
  "findIndex P [] = None"
| "findIndex P (x # xs) =
     (if P x then Some 0 else map_option Suc (findIndex P xs))"

text \<open>\<open>levels.splice(i, 1)\<close> for an index inside the array.\<close>

definition splice1 :: "nat \<Rightarrow> 'a list \<Rightarrow> 'a list" where
  "splice1 i xs = take i xs @ drop (Suc i) xs"

definition updateLevel ::
  "OrderBookLevel list \<Rightarrow> jsnum \<Rightarrow> jsnum \<Rightarrow> bool \<Rightarrow> OrderBookLevel list" where
  "updateLevel levels price sz isBid =
     (let index = findIndex (\<lambda>l. js_eq (l_price l) price) levels;
          levels1 =
            (if js_eq sz (Fin 0) then
               (case index of Some i \<Rightarrow> splice1 i levels | None \<Rightarrow> levels)
             else
               (case index of
                  Some i \<Rightarrow> levels[i := (levels ! i)\<lparr>l_size := sz\<rparr>]
                | None \<Rightarrow> levels @ [\<lparr>l_price = price, l_size = sz\<rparr>]))
      in if isBid then js_sort cmpDesc levels1 else js_sort cmpAsc levels1)"

text \<open>One iteration of the loop of \<open>handlePriceChange\<close>.\<close>

definition applyChange :: "string \<Rightarrow> PriceChange \<Rightarrow> OrderBook \<Rightarrow> OrderBook" where
  "applyChange tid change ob =
     (if pc_asset_id change \<noteq> tid then ob
      else
        let price = parseFloat (pc_price change); sz = parseFloat (pc_size change)
        in if pc_side change = BUY then ob\<lparr>bids := updateLevel (bids ob) price sz True\<rparr>
           else ob\<lparr>asks := updateLevel (asks ob) price sz False\<rparr>)"

definition handlePriceChange :: "PriceChangeMessage \<Rightarrow> Client \<Rightarrow> Client" where
  "handlePriceChange message c =
     c\<lparr>orderBook :=
         (foldl (\<lambda>ob change. applyChange (tokenId c) change ob) (orderBook c)
                (pcm_price_changes message))
         \<lparr>lastUpdate := parseInt (pcm_timestamp message)\<rparr>\<rparr>"

section \<open>The ledger (src/portfolio/portfolio.ts)\<close>

text \<open>\<open>s.toUpperCase()\<close> on the letters \<open>a\<close> to \<open>z\<close>; other characters stay.\<close>

definition toUpperCase :: "string \<Rightarrow> string" where
  "toUpperCase s =
     map (\<lambda>c. if 97 \<le> (of_char c :: nat) \<and> (of_char c :: nat) \<le> 122
               then char_of ((of_char c :: nat) - 32) else c) s"

record Position =
  pos_tokenId :: string
  pos_outcome :: string
  pos_side :: string
  shares :: jsnum
  averagePrice :: jsnum
  pos_totalCost :: jsnum
  firstPurchaseTime :: jsnum
  lastPurchaseTime :: jsnum

text \<open>
  \<open>positions\<close> is a \<open>Map\<close> from token id to position.  A \<open>Map\<close> iterates in insertion
  order, a \<open>set\<close> on a present key keeps the key's place and \<open>delete\<close> removes the
  entry: the association list with \<open>AList.update\<close>, \<open>AList.delete\<close> and \<open>map_of\<close>.
\<close>

record Portfolio =
  positions :: "(string \<times> Position) list"
  totalCost :: jsnum
  currentValue :: jsnum
  unrealizedPnL :: jsnum
  realizedPnL :: jsnum

record PortfolioTracker =
  portfolio :: Portfolio
  currentPrices :: "(string \<times> jsnum) list"

record PortfolioSnapshot =
  snap_positions :: "Position list"
  snap_totalCost :: jsnum
  snap_currentValue :: jsnum
  snap_unrealizedPnL :: jsnum
  snap_realizedPnL :: jsnum
  snap_timestamp :: jsnum

definition newTracker :: PortfolioTracker where
  "newTracker =
     \<lparr>portfolio = \<lparr>positions = [], totalCost = Fin 0, currentValue = Fin 0,
                   unrealizedPnL = Fin 0, realizedPnL = Fin 0\<rparr>,
      currentPrices = []\<rparr>"

text \<open>
  The loop of \<open>recalculateValue\<close> adds \<open>currentPrice * position.shares\<close> for each entry,
  where \<open>currentPrice\<close> is \<open>this.currentPrices.get(tokenId) || 0\<close>.
\<close>

definition recalculateValue :: "PortfolioTracker \<Rightarrow> PortfolioTracker" where
  "recalculateValue tr =
     (let cv = foldl (\<lambda>acc (tid, position).
                   acc + js_or_undef (map_of (currentPrices tr) tid) (Fin 0) * shares position)
                 (Fin 0) (positions (portfolio tr))
      in tr\<lparr>portfolio := (portfolio tr)
             \<lparr>currentValue := cv, unrealizedPnL := cv - totalCost (portfolio tr)\<rparr>\<rparr>)"

text \<open>\<open>xs[0]?.price\<close>: undefined on the empty array.\<close>

definition firstPrice :: "OrderBookLevel list \<Rightarrow> jsnum option" where
  "firstPrice ls = (case ls of [] \<Rightarrow> None | l # _ \<Rightarrow> Some (l_price l))"

definition updatePrices :: "string \<Rightarrow> OrderBook \<Rightarrow> PortfolioTracker \<Rightarrow> PortfolioTracker" where
  "updatePrices tid ob tr =
     (let price =
        (if bids ob \<noteq> [] \<and> asks ob \<noteq> [] then
           (let bestBid = js_or_undef (firstPrice (bids ob)) (Fin 0);
                bestAsk = js_or_undef (firstPrice (asks ob)) (Fin 1)
            in (bestBid + bestAsk) / Fin 2)
         else if asks ob \<noteq> [] then l_price (hd (asks ob))
         else if bids ob \<noteq> [] then l_price (hd (bids ob))
         else Fin (1 / 2))
      in recalculateValue (tr\<lparr>currentPrices := AList.update tid price (currentPrices tr)\<rparr>))"

definition setPrice :: "string \<Rightarrow> jsnum \<Rightarrow> PortfolioTracker \<Rightarrow> PortfolioTracker" where
  "setPrice tid price tr =
     recalculateValue (tr\<lparr>currentPrices := AList.update tid price (currentPrices tr)\<rparr>)"

text \<open>
  \<open>addTrade\<close> changes the position and the totals and then calls \<open>recalculateValue\<close>.
  \<open>postFill\<close> is its body before that call.  The source mutates the position object
  found in the map; here the entry of the key is replaced by the changed position, which
  keeps its place in the list.  \<open>existing.shares >= size\<close> is \<open>sz \<le> shares existing\<close>,
  false when one of them is NaN.
\<close>

definition postFill ::
  "string \<Rightarrow> string \<Rightarrow> Side \<Rightarrow> jsnum \<Rightarrow> jsnum \<Rightarrow> jsnum \<Rightarrow> PortfolioTracker \<Rightarrow> PortfolioTracker" where
  "postFill tid outcome side price sz timestamp tr =
     (let pf = portfolio tr; key = tid in
      case side of
        BUY \<Rightarrow>
          (let ps =
             (case map_of (positions pf) key of
                Some existing \<Rightarrow>
                  (let tc = pos_totalCost existing + price * sz;
                       totalShares = shares existing + sz
                   in AList.update key
                        (existing\<lparr>averagePrice := tc / totalShares, shares := totalShares,
                                  pos_totalCost := tc, lastPurchaseTime := timestamp\<rparr>)
                        (positions pf))
              | None \<Rightarrow>
                  AList.update key
                    \<lparr>pos_tokenId = tid, pos_outcome = outcome,
                     pos_side = toUpperCase outcome, shares = sz, averagePrice = price,
                     pos_totalCost = price * sz, firstPurchaseTime = timestamp,
                     lastPurchaseTime = timestamp\<rparr>
                    (positions pf))
           in tr\<lparr>portfolio := pf\<lparr>positions := ps, totalCost := totalCost pf + price * sz\<rparr>\<rparr>)
      | SELL \<Rightarrow>
          (case map_of (positions pf) key of
             Some existing \<Rightarrow>
               if sz \<le> shares existing then
                 (let saleValue = price * sz;
                      costBasis = averagePrice existing * sz;
                      pnl = saleValue - costBasis;
                      existing' = existing\<lparr>shares := shares existing - sz,
                                          pos_totalCost := pos_totalCost existing - costBasis\<rparr>;
                      ps = (if js_eq (shares existing') (Fin 0)
                            then AList.delete key (positions pf)
                            else AList.update key existing' (positions pf))
                  in tr\<lparr>portfolio := pf\<lparr>positions := ps,
                                         totalCost := totalCost pf - costBasis,
                                         realizedPnL := realizedPnL pf + pnl\<rparr>\<rparr>)
               else tr
           | None \<Rightarrow> tr))"

definition addTrade ::
  "string \<Rightarrow> string \<Rightarrow> Side \<Rightarrow> jsnum \<Rightarrow> jsnum \<Rightarrow> jsnum \<Rightarrow> PortfolioTracker \<Rightarrow> PortfolioTracker" where
  "addTrade tid outcome side price sz timestamp tr =
     recalculateValue (postFill tid outcome side price sz timestamp tr)"

definition getSnapshot :: "jsnum \<Rightarrow> PortfolioTracker \<Rightarrow> PortfolioSnapshot" where
  "getSnapshot now tr =
     \<lparr>snap_positions = map snd (positions (portfolio tr)),
      snap_totalCost = totalCost (portfolio tr),
      snap_currentValue = currentValue (portfolio tr),
      snap_unrealizedPnL = unrealizedPnL (portfolio tr),
      snap_realizedPnL = realizedPnL (portfolio tr),
      snap_timestamp = now\<rparr>"

definition getPosition :: "string \<Rightarrow> PortfolioTracker \<Rightarrow> Position option" where
  "getPosition tid tr = map_of (positions (portfolio tr)) tid"

definition clear :: "PortfolioTracker \<Rightarrow> PortfolioTracker" where
  "clear tr =
     tr\<lparr>portfolio := (portfolio tr)\<lparr>positions := [], totalCost := Fin 0, currentValue := Fin 0,
                                     unrealizedPnL := Fin 0, realizedPnL := Fin 0\<rparr>\<rparr>"

text \<open>The public operations that change a ledger, and a run of them from the empty ledger.\<close>

datatype LedgerOp =
    AddTrade string string Side jsnum jsnum jsnum
  | SetPrice string jsnum
  | UpdatePrices string OrderBook
  | Clear

fun applyOp :: "PortfolioTracker \<Rightarrow> LedgerOp \<Rightarrow> PortfolioTracker" where
  "applyOp tr (AddTrade tid outcome side price sz timestamp) =
     addTrade tid outcome side price sz timestamp tr"
| "applyOp tr (SetPrice tid price) = setPrice tid price tr"
| "applyOp tr (UpdatePrices tid ob) = updatePrices tid ob tr"
| "applyOp tr Clear = clear tr"

definition runLedger :: "LedgerOp list \<Rightarrow> PortfolioTracker" where
  "runLedger ops = foldl applyOp newTracker ops"

subsection \<open>The other copy of portfolio.ts\<close>

text \<open>
  The repository holds a second copy of src/portfolio/portfolio.ts (among the files
  without a name).  Its \<open>addTrade\<close> changes the ledger in the same way; its
  \<open>recalculateValue\<close> also adds up \<open>position.totalCost\<close> in the loop and stores the sum
  as the total cost of the ledger ("Recalculate totalCost from positions (source of
  truth)", "Use recalculated totalCost to fix accumulation bugs").
\<close>

definition recalculateValue_recomputing :: "PortfolioTracker \<Rightarrow> PortfolioTracker" where
  "recalculateValue_recomputing tr =
     (let (cv, rtc) =
            foldl (\<lambda>(cv, rtc) (tid, position).
                     (cv + js_or_undef (map_of (currentPrices tr) tid) (Fin 0) * shares position,
                      rtc + pos_totalCost position))
                  (Fin 0, Fin 0) (positions (portfolio tr))
      in tr\<lparr>portfolio := (portfolio tr)
             \<lparr>currentValue := cv, totalCost := rtc, unrealizedPnL := cv - rtc\<rparr>\<rparr>)"

definition addTrade_recomputing ::
  "string \<Rightarrow> string \<Rightarrow> Side \<Rightarrow> jsnum \<Rightarrow> jsnum \<Rightarrow> jsnum \<Rightarrow> PortfolioTracker \<Rightarrow> PortfolioTracker" where
  "addTrade_recomputing tid outcome side price sz timestamp tr =
     recalculateValue_recomputing (postFill tid outcome side price sz timestamp tr)"

section \<open>Strategies (src/strategy)\<close>

text \<open>
  The interfaces of src/strategy/types.ts.  The optional \<open>history\<close> of a context, a
  reference to the price history, is left out: no function below reads it.
\<close>

record StrategyContext =
  ctx_tokenId :: string
  ctx_marketName :: string
  ctx_outcome :: string
  ctx_currentPrice :: jsnum
  ctx_bestBid :: jsnum
  ctx_bestAsk :: jsnum
  ctx_timestamp :: jsnum

record TradeIntent =
  ti_side :: Side
  ti_size :: jsnum
  ti_price :: "jsnum option"
  ti_tokenId :: "string option"

record StrategyResult =
  shouldExecute :: bool
  trade :: "TradeIntent option"

record SimulatedTrade =
  st_id :: string
  st_timestamp :: jsnum
  st_tokenId :: string
  st_side :: Side
  st_price :: jsnum
  st_size :: jsnum
  st_notional :: jsnum
  st_strategyName :: string

text \<open>The argument of \<open>onTradeExecuted\<close>.\<close>

record FillNotice =
  fn_side :: Side
  fn_price :: jsnum
  fn_size :: jsnum
  fn_timestamp :: jsnum

text \<open>
  A strategy is an object of a subclass of \<open>BaseStrategy\<close>.  The methods of the class are
  a record of functions on the state \<open>'s\<close> of the object.  \<open>Date.now()\<close> is an integer
  number of milliseconds; the methods that read the clock take the reading as their first
  argument.  \<open>evaluate\<close> returns \<open>None\<close> for the result when it throws.
\<close>

record 's StrategyClass =
  getName :: "'s \<Rightarrow> string"
  isEnabled :: "'s \<Rightarrow> bool"
  initialize :: "int \<Rightarrow> StrategyContext \<Rightarrow> 's \<Rightarrow> 's"
  evaluate :: "int \<Rightarrow> StrategyContext \<Rightarrow> 's \<Rightarrow> StrategyResult option \<times> 's"
  onTradeExecuted :: "FillNotice \<Rightarrow> 's \<Rightarrow> 's"
  cleanup :: "'s \<Rightarrow> 's"

subsection \<open>PollBuyStrategy (src/strategy/poll-buy-strategy.ts)\<close>

record PollBuyStrategyConfig =
  cfg_name :: string
  cfg_enabled :: bool
  cfg_intervalSeconds :: "jsnum option"
  cfg_buySize :: "jsnum option"
  cfg_targetTokenId :: "string option"
  cfg_targetOutcome :: "string option"

record PollBuyStrategy =
  pb_config :: PollBuyStrategyConfig
  lastExecutionTime :: jsnum
  executionCount :: jsnum
  targetTokenId :: "string option"

text \<open>\<open>s || null\<close> and \<open>s || undefined\<close> on an optional string: the empty string is falsy.\<close>

definition nonEmpty :: "string option \<Rightarrow> string option" where
  "nonEmpty s = (case s of None \<Rightarrow> None | Some t \<Rightarrow> if t = [] then None else Some t)"

definition newPollBuyStrategy :: "PollBuyStrategyConfig \<Rightarrow> PollBuyStrategy" where
  "newPollBuyStrategy config =
     \<lparr>pb_config = config, lastExecutionTime = Fin 0, executionCount = Fin 0,
      targetTokenId = nonEmpty (cfg_targetTokenId config)\<rparr>"

definition PollBuy_initialize :: "int \<Rightarrow> StrategyContext \<Rightarrow> PollBuyStrategy \<Rightarrow> PollBuyStrategy" where
  "PollBuy_initialize now context s =
     s\<lparr>lastExecutionTime := Fin (of_int now), executionCount := Fin 0,
       targetTokenId := (if nonEmpty (targetTokenId s) = None then Some (ctx_tokenId context)
                         else targetTokenId s)\<rparr>"

definition PollBuy_evaluate ::
  "int \<Rightarrow> StrategyContext \<Rightarrow> PollBuyStrategy \<Rightarrow> StrategyResult \<times> PollBuyStrategy" where
  "PollBuy_evaluate now context s =
     (if \<not> cfg_enabled (pb_config s) then (\<lparr>shouldExecute = False, trade = None\<rparr>, s)
      else
        let intervalMs = js_or_undef (cfg_intervalSeconds (pb_config s)) (Fin 15) * Fin 1000;
            timeSinceLastExecution = Fin (of_int now) - lastExecutionTime s
        in if intervalMs \<le> timeSinceLastExecution then
             (\<lparr>shouldExecute = True,
               trade = Some \<lparr>ti_side = BUY,
                             ti_size = js_or_undef (cfg_buySize (pb_config s)) (Fin 1),
                             ti_price = None,
                             ti_tokenId = nonEmpty (targetTokenId s)\<rparr>\<rparr>,
              s\<lparr>lastExecutionTime := Fin (of_int now),
                executionCount := executionCount s + Fin 1\<rparr>)
           else (\<lparr>shouldExecute = False, trade = None\<rparr>, s))"

definition PollBuyClass :: "PollBuyStrategy StrategyClass" where
  "PollBuyClass =
     \<lparr>getName = (\<lambda>s. cfg_name (pb_config s)),
      isEnabled = (\<lambda>s. cfg_enabled (pb_config s)),
      initialize = PollBuy_initialize,
      evaluate = (\<lambda>now context s.
                    (Some (fst (PollBuy_evaluate now context s)),
                     snd (PollBuy_evaluate now context s))),
      onTradeExecuted = (\<lambda>notice s. s),
      cleanup = (\<lambda>s. s)\<rparr>"

text \<open>
  The evaluations of one strategy at successive clock readings: the results, and the
  strategy afterwards.
\<close>

fun PollBuy_results :: "StrategyContext \<Rightarrow> PollBuyStrategy \<Rightarrow> int list \<Rightarrow> StrategyResult list" where
  "PollBuy_results context s [] = []"
| "PollBuy_results context s (now # later) =
     fst (PollBuy_evaluate now context s)
     # PollBuy_results context (snd (PollBuy_evaluate now context s)) later"

fun PollBuy_after :: "StrategyContext \<Rightarrow> PollBuyStrategy \<Rightarrow> int list \<Rightarrow> PollBuyStrategy" where
  "PollBuy_after context s [] = s"
| "PollBuy_after context s (now # later) =
     PollBuy_after context (snd (PollBuy_evaluate now context s)) later"

section \<open>The simulator (src/simulator/simulator.ts)\<close>

text \<open>
  The fields of \<open>StrategySimulator\<close>.  \<open>evaluationInterval\<close> says whether the timer of
  \<open>start\<close> is set.  The trade callbacks are left out: no caller registers one, and what a
  callback does is outside the program.  The debug output is left out as well.
\<close>

record 's StrategySimulator =
  strategies :: "'s list"
  sim_portfolio :: PortfolioTracker
  simulatedTrades :: "SimulatedTrade list"
  evaluationInterval :: bool
  evaluationIntervalMs :: jsnum
  currentContext :: "StrategyContext option"
  currentOrderBook :: "OrderBook option"

definition newSimulator :: "'s StrategySimulator" where
  "newSimulator =
     \<lparr>strategies = [], sim_portfolio = newTracker, simulatedTrades = [],
      evaluationInterval = False, evaluationIntervalMs = Fin 1000,
      currentContext = None, currentOrderBook = None\<rparr>"

definition addStrategy :: "'s \<Rightarrow> 's StrategySimulator \<Rightarrow> 's StrategySimulator" where
  "addStrategy strategy sim = sim\<lparr>strategies := strategies sim @ [strategy]\<rparr>"

definition start ::
  "'s StrategyClass \<Rightarrow> int \<Rightarrow> StrategyContext \<Rightarrow> 's StrategySimulator \<Rightarrow> 's StrategySimulator" where
  "start cls now context sim =
     sim\<lparr>currentContext := Some context,
         strategies := map (\<lambda>s. if isEnabled cls s then initialize cls now context s else s)
                         (strategies sim),
         evaluationInterval := True\<rparr>"

definition updateMarket ::
  "int \<Rightarrow> string \<Rightarrow> OrderBook \<Rightarrow> 's StrategySimulator \<Rightarrow> 's StrategySimulator" where
  "updateMarket now tid ob sim =
     (let bestBid = js_or_undef (firstPrice (bids ob)) (Fin 0);
          bestAsk = js_or_undef (firstPrice (asks ob)) (Fin 1);
          price = (if bids ob \<noteq> [] \<and> asks ob \<noteq> [] then (bestBid + bestAsk) / Fin 2
                   else if asks ob \<noteq> [] then bestAsk
                   else if bids ob \<noteq> [] then bestBid
                   else Fin (1 / 2))
      in sim\<lparr>currentOrderBook := Some ob,
             sim_portfolio := setPrice tid price (sim_portfolio sim),
             currentContext :=
               (case currentContext sim of
                  None \<Rightarrow> None
                | Some ctx \<Rightarrow>
                    Some (ctx\<lparr>ctx_currentPrice := bestAsk, ctx_bestBid := bestBid,
                              ctx_bestAsk := bestAsk, ctx_timestamp := Fin (of_int now)\<rparr>))\<rparr>)"

text \<open>
  The loop of \<open>calculateExecutionPrice\<close> over the sorted levels: it stops at the first
  level at which \<open>remainingSize <= 0\<close>; the result is the remaining size and the cost
  (\<open>totalCost\<close> in the source, \<open>cost\<close> here).
\<close>

fun walkLevels :: "OrderBookLevel list \<Rightarrow> jsnum \<Rightarrow> jsnum \<Rightarrow> jsnum \<times> jsnum" where
  "walkLevels [] remainingSize cost = (remainingSize, cost)"
| "walkLevels (level # rest) remainingSize cost =
     (if remainingSize \<le> Fin 0 then (remainingSize, cost)
      else
        let fillSize = js_min remainingSize (l_size level)
        in walkLevels rest (remainingSize - fillSize) (cost + fillSize * l_price level))"

text \<open>The result is the pair of \<open>averagePrice\<close> and \<open>canFill\<close>.\<close>

definition calculateExecutionPrice ::
  "Side \<Rightarrow> jsnum \<Rightarrow> 's StrategySimulator \<Rightarrow> jsnum \<times> bool" where
  "calculateExecutionPrice side sz sim =
     (case currentOrderBook sim of
        None \<Rightarrow>
          (case currentContext sim of
             Some ctx \<Rightarrow>
               ((if side = BUY then js_or (ctx_bestAsk ctx) (ctx_currentPrice ctx)
                 else js_or (ctx_bestBid ctx) (ctx_currentPrice ctx)), True)
           | None \<Rightarrow> (Fin (1 / 2), False))
      | Some ob \<Rightarrow>
          (let levels = (if side = BUY then asks ob else bids ob);
               sortedLevels =
                 (if side = BUY then js_sort cmpAsc levels else js_sort cmpDesc levels);
               (remainingSize, walked) = walkLevels sortedLevels sz (Fin 0);
               cost =
                 (if Fin 0 < remainingSize then
                    (let bestPrice =
                           (if side = BUY then js_or_undef (firstPrice (asks ob)) (Fin 1)
                            else js_or_undef (firstPrice (bids ob)) (Fin 0))
                     in walked + remainingSize * bestPrice)
                  else walked);
               avgPrice = (if Fin 0 < sz then cost / sz else Fin 0);
               canFill = (js_eq remainingSize (Fin 0) \<or> levels \<noteq> [])
           in (avgPrice, canFill)))"

text \<open>
  \<open>executeTrade\<close>.  The clock is read once for the call; \<open>tradeId\<close> is the identifier
  that the source builds from the clock and \<open>Math.random()\<close>.  The first strategy with the
  name is notified.
\<close>

definition executeTrade ::
  "'s StrategyClass \<Rightarrow> int \<Rightarrow> string \<Rightarrow> string \<Rightarrow> TradeIntent \<Rightarrow> 's StrategySimulator
   \<Rightarrow> 's StrategySimulator" where
  "executeTrade cls now tradeId strategyName intent sim =
     (case currentContext sim of
        None \<Rightarrow> sim
      | Some ctx \<Rightarrow>
          (let tradeTokenId = (case nonEmpty (ti_tokenId intent) of
                                 Some t \<Rightarrow> t | None \<Rightarrow> ctx_tokenId ctx);
               executionPrice = (case ti_price intent of
                                   Some p \<Rightarrow> p
                                 | None \<Rightarrow> fst (calculateExecutionPrice (ti_side intent)
                                                 (ti_size intent) sim));
               simulatedTrade =
                 \<lparr>st_id = tradeId, st_timestamp = Fin (of_int now), st_tokenId = tradeTokenId,
                  st_side = ti_side intent, st_price = executionPrice,
                  st_size = ti_size intent, st_notional = executionPrice * ti_size intent,
                  st_strategyName = strategyName\<rparr>;
               pf = addTrade tradeTokenId (ctx_outcome ctx) (ti_side intent) executionPrice
                      (ti_size intent) (Fin (of_int now)) (sim_portfolio sim);
               notice = \<lparr>fn_side = ti_side intent, fn_price = executionPrice,
                         fn_size = ti_size intent, fn_timestamp = Fin (of_int now)\<rparr>;
               ss = (case findIndex (\<lambda>s. getName cls s = strategyName) (strategies sim) of
                       None \<Rightarrow> strategies sim
                     | Some i \<Rightarrow>
                         (strategies sim)[i := onTradeExecuted cls notice (strategies sim ! i)]);
               ts = simulatedTrade # simulatedTrades sim
           in sim\<lparr>sim_portfolio := pf, strategies := ss,
                  simulatedTrades := (if length ts > 1000 then take 1000 ts else ts)\<rparr>))"

text \<open>
  One round of the loop of \<open>evaluateStrategies\<close>, for the strategy at index \<open>i\<close>.  A
  strategy whose \<open>evaluate\<close> throws keeps the state it had when it threw, and the loop
  goes on.
\<close>

definition evaluateOne ::
  "'s StrategyClass \<Rightarrow> int \<Rightarrow> (string \<Rightarrow> string) \<Rightarrow> StrategyContext \<Rightarrow> nat
   \<Rightarrow> 's StrategySimulator \<Rightarrow> 's StrategySimulator" where
  "evaluateOne cls now newId ctx i sim =
     (let strategy = strategies sim ! i in
      if \<not> isEnabled cls strategy then sim
      else
        let (result, strategy1) = evaluate cls now ctx strategy;
            sim1 = sim\<lparr>strategies := (strategies sim)[i := strategy1]\<rparr>
        in case result of
             None \<Rightarrow> sim1
           | Some r \<Rightarrow>
               (case trade r of
                  Some intent \<Rightarrow>
                    if shouldExecute r
                    then executeTrade cls now (newId (getName cls strategy1))
                           (getName cls strategy1) intent sim1
                    else sim1
                | None \<Rightarrow> sim1))"

definition evaluateStrategies ::
  "'s StrategyClass \<Rightarrow> int \<Rightarrow> (string \<Rightarrow> string) \<Rightarrow> 's StrategySimulator
   \<Rightarrow> 's StrategySimulator" where
  "evaluateStrategies cls now newId sim =
     (case currentContext sim of
        None \<Rightarrow> sim
      | Some ctx \<Rightarrow>
          foldl (\<lambda>s i. evaluateOne cls now newId ctx i s) sim [0..<length (strategies sim)])"

subsection \<open>The wiring of src/index.ts\<close>

text \<open>
  The callback that \<open>main\<close> gives to the feed client updates the simulator with every
  order book and starts it, once, at the first book that has both sides populated.  The
  timer that \<open>start\<close> sets calls \<open>evaluateStrategies\<close>; without it there is no tick.
\<close>

record 's Dashboard =
  simulator :: "'s StrategySimulator"
  initialContextCreated :: bool
  d_tokenId :: string
  d_marketName :: string
  d_outcome :: string

definition onFeedUpdate ::
  "'s StrategyClass \<Rightarrow> int \<Rightarrow> OrderBook \<Rightarrow> 's Dashboard \<Rightarrow> 's Dashboard" where
  "onFeedUpdate cls now ob d =
     (let sim1 = updateMarket now (d_tokenId d) ob (simulator d) in
      if \<not> initialContextCreated d \<and> bids ob \<noteq> [] \<and> asks ob \<noteq> [] then
        (let bestBid = js_or_undef (firstPrice (bids ob)) (Fin 0);
             bestAsk = js_or_undef (firstPrice (asks ob)) (Fin 1)
         in d\<lparr>simulator :=
                start cls now
                  \<lparr>ctx_tokenId = d_tokenId d, ctx_marketName = d_marketName d,
                   ctx_outcome = d_outcome d, ctx_currentPrice = bestAsk,
                   ctx_bestBid = bestBid, ctx_bestAsk = bestAsk,
                   ctx_timestamp = Fin (of_int now)\<rparr> sim1,
              initialContextCreated := True\<rparr>)
      else d\<lparr>simulator := sim1\<rparr>)"

definition onTick ::
  "'s StrategyClass \<Rightarrow> int \<Rightarrow> (string \<Rightarrow> string) \<Rightarrow> 's Dashboard \<Rightarrow> 's Dashboard" where
  "onTick cls now newId d =
     (if evaluationInterval (simulator d)
      then d\<lparr>simulator := evaluateStrategies cls now newId (simulator d)\<rparr>
      else d)"

datatype Event = FeedUpdate int OrderBook | Tick int "string \<Rightarrow> string"

fun handleEvent :: "'s StrategyClass \<Rightarrow> 's Dashboard \<Rightarrow> Event \<Rightarrow> 's Dashboard" where
  "handleEvent cls d (FeedUpdate now ob) = onFeedUpdate cls now ob d"
| "handleEvent cls d (Tick now newId) = onTick cls now newId d"

definition newDashboard :: "string \<Rightarrow> string \<Rightarrow> string \<Rightarrow> 's list \<Rightarrow> 's Dashboard" where
  "newDashboard tid marketName outcome ss =
     \<lparr>simulator = foldl (\<lambda>sim s. addStrategy s sim) newSimulator ss,
      initialContextCreated = False,
      d_tokenId = tid, d_marketName = marketName, d_outcome = outcome\<rparr>"

definition runDashboard :: "'s StrategyClass \<Rightarrow> 's Dashboard \<Rightarrow> Event list \<Rightarrow> 's Dashboard" where
  "runDashboard cls d events = foldl (handleEvent cls) d events"

section \<open>Objects and references\<close>

text \<open>
  The functions above pass states as values.  Where the program hands out an object that
  it keeps mutating, what the receiver sees depends on the object being shared.  The
  ledger and the feed client are therefore modelled a second time with an explicit store:
  an object lives at an address, a field that holds an object holds its address, and a
  mutation in place writes the store at that address.  The lemmas \<open>ledgerOf_addTrade_s\<close>
  and \<open>clientOf_handlers\<close> below show that, read through the store, these are the
  functions above.
\<close>

type_synonym addr = nat

subsection \<open>The ledger\<close>

text \<open>
  \<open>objects\<close> holds the \<open>Position\<close> objects; the map \<open>positions\<close> of the ledger holds
  their addresses.  \<open>nextAddr\<close> is the address of the next object that is created.
\<close>

record LedgerStore =
  objects :: "addr \<Rightarrow> Position"
  nextAddr :: addr
  s_positions :: "(string \<times> addr) list"
  s_totalCost :: jsnum
  s_currentValue :: jsnum
  s_unrealizedPnL :: jsnum
  s_realizedPnL :: jsnum
  s_currentPrices :: "(string \<times> jsnum) list"

text \<open>
  The object that \<open>getSnapshot\<close> returns: the numbers of the ledger, and a new array with
  the references that \<open>this.portfolio.positions.values()\<close> yields.
\<close>

record SnapshotRefs =
  r_positions :: "addr list"
  r_totalCost :: jsnum
  r_currentValue :: jsnum
  r_unrealizedPnL :: jsnum
  r_realizedPnL :: jsnum
  r_timestamp :: jsnum

definition newLedgerStore :: LedgerStore where
  "newLedgerStore =
     \<lparr>objects = (\<lambda>a. undefined), nextAddr = 0, s_positions = [], s_totalCost = Fin 0,
      s_currentValue = Fin 0, s_unrealizedPnL = Fin 0, s_realizedPnL = Fin 0,
      s_currentPrices = []\<rparr>"

definition recalculateValue_s :: "LedgerStore \<Rightarrow> LedgerStore" where
  "recalculateValue_s st =
     (let cv = foldl (\<lambda>acc (tid, a).
                   acc + js_or_undef (map_of (s_currentPrices st) tid) (Fin 0)
                         * shares (objects st a))
                 (Fin 0) (s_positions st)
      in st\<lparr>s_currentValue := cv, s_unrealizedPnL := cv - s_totalCost st\<rparr>)"

definition postFill_s ::
  "string \<Rightarrow> string \<Rightarrow> Side \<Rightarrow> jsnum \<Rightarrow> jsnum \<Rightarrow> jsnum \<Rightarrow> LedgerStore \<Rightarrow> LedgerStore" where
  "postFill_s tid outcome side price sz timestamp st =
     (case side of
        BUY \<Rightarrow>
          (case map_of (s_positions st) tid of
             Some a \<Rightarrow>
               (let existing = objects st a;
                    tc = pos_totalCost existing + price * sz;
                    totalShares = shares existing + sz
                in st\<lparr>objects := (objects st)
                         (a := existing\<lparr>averagePrice := tc / totalShares,
                                         shares := totalShares, pos_totalCost := tc,
                                         lastPurchaseTime := timestamp\<rparr>),
                      s_totalCost := s_totalCost st + price * sz\<rparr>)
           | None \<Rightarrow>
               (let a = nextAddr st
                in st\<lparr>objects := (objects st)
                         (a := \<lparr>pos_tokenId = tid, pos_outcome = outcome,
                                pos_side = toUpperCase outcome, shares = sz,
                                averagePrice = price, pos_totalCost = price * sz,
                                firstPurchaseTime = timestamp,
                                lastPurchaseTime = timestamp\<rparr>),
                      nextAddr := Suc a,
                      s_positions := AList.update tid a (s_positions st),
                      s_totalCost := s_totalCost st + price * sz\<rparr>))
      | SELL \<Rightarrow>
          (case map_of (s_positions st) tid of
             Some a \<Rightarrow>
               (let existing = objects st a in
                if sz \<le> shares existing then
                  (let saleValue = price * sz;
                       costBasis = averagePrice existing * sz;
                       pnl = saleValue - costBasis;
                       existing' = existing\<lparr>shares := shares existing - sz,
                                           pos_totalCost := pos_totalCost existing - costBasis\<rparr>
                   in st\<lparr>objects := (objects st)(a := existing'),
                         s_positions := (if js_eq (shares existing') (Fin 0)
                                         then AList.delete tid (s_positions st)
                                         else s_positions st),
                         s_totalCost := s_totalCost st - costBasis,
                         s_realizedPnL := s_realizedPnL st + pnl\<rparr>)
                else st)
           | None \<Rightarrow> st))"

definition addTrade_s ::
  "string \<Rightarrow> string \<Rightarrow> Side \<Rightarrow> jsnum \<Rightarrow> jsnum \<Rightarrow> jsnum \<Rightarrow> LedgerStore \<Rightarrow> LedgerStore" where
  "addTrade_s tid outcome side price sz timestamp st =
     recalculateValue_s (postFill_s tid outcome side price sz timestamp st)"

definition getSnapshot_s :: "jsnum \<Rightarrow> LedgerStore \<Rightarrow> SnapshotRefs" where
  "getSnapshot_s now st =
     \<lparr>r_positions = map snd (s_positions st), r_totalCost = s_totalCost st,
      r_currentValue = s_currentValue st, r_unrealizedPnL = s_unrealizedPnL st,
      r_realizedPnL = s_realizedPnL st, r_timestamp = now\<rparr>"

text \<open>The ledger that a store holds, as a value.\<close>

definition ledgerOf :: "LedgerStore \<Rightarrow> PortfolioTracker" where
  "ledgerOf st =
     \<lparr>portfolio =
        \<lparr>positions = map (\<lambda>(tid, a). (tid, objects st a)) (s_positions st),
         totalCost = s_totalCost st, currentValue = s_currentValue st,
         unrealizedPnL = s_unrealizedPnL st, realizedPnL = s_realizedPnL st\<rparr>,
      currentPrices = s_currentPrices st\<rparr>"

text \<open>The positions that a holder of a snapshot reads through its array.\<close>

definition snapshotPositions :: "LedgerStore \<Rightarrow> SnapshotRefs \<Rightarrow> Position list" where
  "snapshotPositions st snap = map (objects st) (r_positions snap)"

text \<open>No two entries of the map share a position object, and every entry is allocated.\<close>

definition storeOK :: "LedgerStore \<Rightarrow> bool" where
  "storeOK st =
     (distinct (map snd (s_positions st))
      \<and> list_all (\<lambda>(tid, a). a < nextAddr st) (s_positions st))"

subsection \<open>The feed client\<close>

text \<open>
  \<open>this.trades\<close> is a reference to an array and \<open>this.orderBook\<close> a reference to an
  object whose arrays are taken as part of it.  \<open>unshift\<close>, \<open>splice\<close>, \<open>push\<close>, \<open>sort\<close> and
  an assignment to a field write the object in place; \<open>slice\<close> and an object literal create
  a new object.
\<close>

record ClientStore =
  tradeArrays :: "addr \<Rightarrow> Trade list"
  books :: "addr \<Rightarrow> OrderBook"
  c_next :: addr
  c_tokenId :: string
  c_trades :: addr
  c_orderBook :: addr

definition newClientStore :: "string \<Rightarrow> ClientStore" where
  "newClientStore tid =
     \<lparr>tradeArrays = (\<lambda>a. []),
      books = (\<lambda>a. \<lparr>bids = [], asks = [], lastUpdate = Fin 0\<rparr>),
      c_next = 2, c_tokenId = tid, c_trades = 0, c_orderBook = 1\<rparr>"

definition handleBookMessage_s :: "BookMessage \<Rightarrow> ClientStore \<Rightarrow> ClientStore" where
  "handleBookMessage_s message c =
     (if bm_asset_id message \<noteq> c_tokenId c then c
      else
        let a = c_next c
        in c\<lparr>books := (books c)
                 (a := \<lparr>bids = js_sort cmpDesc (map parseLevel (bidData message)),
                        asks = js_sort cmpAsc (map parseLevel (askData message)),
                        lastUpdate = parseInt (bm_timestamp message)\<rparr>),
              c_next := Suc a, c_orderBook := a\<rparr>)"

definition handleTradeMessage_s :: "LastTradeMessage \<Rightarrow> ClientStore \<Rightarrow> ClientStore" where
  "handleTradeMessage_s message c =
     (let ts = mkTrade message # tradeArrays c (c_trades c);
          c1 = c\<lparr>tradeArrays := (tradeArrays c)(c_trades c := ts)\<rparr>
      in if length ts > 100
         then (let a = c_next c1
               in c1\<lparr>tradeArrays := (tradeArrays c1)(a := take 100 ts),
                      c_next := Suc a, c_trades := a\<rparr>)
         else c1)"

definition handlePriceChange_s :: "PriceChangeMessage \<Rightarrow> ClientStore \<Rightarrow> ClientStore" where
  "handlePriceChange_s message c =
     c\<lparr>books := (books c)
         (c_orderBook c :=
            (foldl (\<lambda>ob change. applyChange (c_tokenId c) change ob) (books c (c_orderBook c))
                   (pcm_price_changes message))
            \<lparr>lastUpdate := parseInt (pcm_timestamp message)\<rparr>)\<rparr>"

text \<open>
  \<open>notifyUpdate\<close> calls the handler with \<open>this.trades\<close>, \<open>this.orderBook\<close> and the flag:
  what the handler receives.
\<close>

definition notifyUpdate_s :: "bool \<Rightarrow> ClientStore \<Rightarrow> addr \<times> addr \<times> bool" where
  "notifyUpdate_s isConnected c = (c_trades c, c_orderBook c, isConnected)"

text \<open>The client that a store holds, as a value.\<close>

definition clientOf :: "ClientStore \<Rightarrow> Client" where
  "clientOf c =
     \<lparr>tokenId = c_tokenId c, trades = tradeArrays c (c_trades c),
      orderBook = books c (c_orderBook c)\<rparr>"

section \<open>Properties of the order book\<close>

definition numericPrices :: "OrderBookLevel list \<Rightarrow> bool" where
  "numericPrices ls = list_all (\<lambda>l. l_price l \<noteq> NaN) ls"

definition ascending :: "OrderBookLevel list \<Rightarrow> bool" where
  "ascending ls = sorted_wrt (\<lambda>a b. l_price a \<le> l_price b) ls"

definition descending :: "OrderBookLevel list \<Rightarrow> bool" where
  "descending ls = sorted_wrt (\<lambda>a b. l_price b \<le> l_price a) ls"

definition strictlyAscending :: "OrderBookLevel list \<Rightarrow> bool" where
  "strictlyAscending ls = sorted_wrt (\<lambda>a b. l_price a < l_price b) ls"

definition strictlyDescending :: "OrderBookLevel list \<Rightarrow> bool" where
  "strictlyDescending ls = sorted_wrt (\<lambda>a b. l_price b < l_price a) ls"

definition sideLevels :: "Side \<Rightarrow> OrderBook \<Rightarrow> OrderBookLevel list" where
  "sideLevels sd ob = (if sd = BUY then bids ob else asks ob)"

definition sideSorted :: "Side \<Rightarrow> OrderBookLevel list \<Rightarrow> bool" where
  "sideSorted sd ls =
     (numericPrices ls \<and> (if sd = BUY then descending ls else ascending ls))"

fun removeFirst :: "jsnum \<Rightarrow> OrderBookLevel list \<Rightarrow> OrderBookLevel list" where
  "removeFirst p [] = []"
| "removeFirst p (l # ls) = (if l_price l = p then ls else l # removeFirst p ls)"

fun resizeFirst :: "jsnum \<Rightarrow> jsnum \<Rightarrow> OrderBookLevel list \<Rightarrow> OrderBookLevel list" where
  "resizeFirst p s [] = []"
| "resizeFirst p s (l # ls) =
     (if l_price l = p then l\<lparr>l_size := s\<rparr> # ls else l # resizeFirst p s ls)"


section \<open>Properties of the ledger\<close>

text \<open>The sum of \<open>totalCost\<close> over the live positions, added up in the order of the map.\<close>

definition sumTotalCost :: "(string \<times> Position) list \<Rightarrow> jsnum" where
  "sumTotalCost ps = foldl (\<lambda>acc (tid, position). acc + pos_totalCost position) (Fin 0) ps"

text \<open>The sum of stored mark price times shares over the live positions.\<close>

definition markedValue :: "(string \<times> jsnum) list \<Rightarrow> (string \<times> Position) list \<Rightarrow> jsnum" where
  "markedValue prices ps =
     foldl (\<lambda>acc (tid, position).
              acc + (case map_of prices tid of None \<Rightarrow> Fin 0
                     | Some m \<Rightarrow> if truthy m then m else Fin 0) * shares position)
           (Fin 0) ps"

text \<open>A fill with a price that is a finite number and a size that is finite and positive.\<close>

fun properFill :: "LedgerOp \<Rightarrow> bool" where
  "properFill (AddTrade tid outcome side price sz timestamp) =
     (isFin price \<and> isFin sz \<and> Fin 0 < sz)"
| "properFill _ = True"

text \<open>
  What holds of every position after fills of positive finite size: shares are a positive
  finite number and the cost is the average price times the shares.  \<open>costs\<close> is the
  sum of the positions' costs as a rational.
\<close>

definition goodPosition :: "Position \<Rightarrow> bool" where
  "goodPosition p =
     (isFin (shares p) \<and> Fin 0 < shares p \<and> isFin (averagePrice p)
      \<and> pos_totalCost p = averagePrice p * shares p)"

definition ledgerInvariant :: "PortfolioTracker \<Rightarrow> bool" where
  "ledgerInvariant tr =
     (distinct (map fst (positions (portfolio tr)))
      \<and> list_all (\<lambda>(tid, position). goodPosition position) (positions (portfolio tr))
      \<and> totalCost (portfolio tr) = sumTotalCost (positions (portfolio tr)))"

definition costs :: "(string \<times> Position) list \<Rightarrow> rat" where
  "costs ps = sum_list (map (\<lambda>(tid, position). the_Fin (pos_totalCost position)) ps)"


section \<open>Properties of the strategies and the simulator\<close>

text \<open>
  The clock reading of the latest evaluation that fired among the evaluations so far
  (their readings and results), and \<open>t0\<close> when none of them fired.
\<close>

definition previousFire :: "int \<Rightarrow> int list \<Rightarrow> StrategyResult list \<Rightarrow> int" where
  "previousFire t0 readings results =
     last (t0 # map fst (filter (\<lambda>(t, r). shouldExecute r) (zip readings results)))"

text \<open>A feed update that carries an order book with both sides populated.\<close>

fun bothSidesPopulated :: "Event \<Rightarrow> bool" where
  "bothSidesPopulated (FeedUpdate now ob) = (bids ob \<noteq> [] \<and> asks ob \<noteq> [])"
| "bothSidesPopulated (Tick now newId) = False"







text \<open>What holds of the dashboard as long as the simulator has not been started, and once
  it has.\<close>

definition idle :: "'s list \<Rightarrow> 's Dashboard \<Rightarrow> bool" where
  "idle ss d =
     (\<not> initialContextCreated d \<and> currentContext (simulator d) = None
      \<and> \<not> evaluationInterval (simulator d) \<and> strategies (simulator d) = ss
      \<and> simulatedTrades (simulator d) = []
      \<and> positions (portfolio (sim_portfolio (simulator d))) = [])"

definition started :: "'s Dashboard \<Rightarrow> bool" where
  "started d = (initialContextCreated d \<and> currentContext (simulator d) \<noteq> None)"

section \<open>Facts about numbers, the sort and the book\<close>

subsection \<open>Order facts about numbers\<close>

lemma jle_trans: "(a::jsnum) \<le> b \<Longrightarrow> b \<le> c \<Longrightarrow> a \<le> c"
  by (cases a; cases b; cases c) auto

lemma jle_total: "a \<noteq> NaN \<Longrightarrow> b \<noteq> NaN \<Longrightarrow> (a::jsnum) \<le> b \<or> b \<le> a"
  by (cases a; cases b) auto

lemma jle_refl: "a \<noteq> NaN \<Longrightarrow> (a::jsnum) \<le> a"
  by (cases a) auto

lemma jless_iff: "((a::jsnum) < b) = (a \<le> b \<and> a \<noteq> b)"
  by (cases a; cases b) auto

lemma jnot_le: "a \<noteq> NaN \<Longrightarrow> b \<noteq> NaN \<Longrightarrow> (\<not> (a::jsnum) \<le> b) = (b < a)"
  by (cases a; cases b) auto

lemma jsub_pos: "a \<noteq> NaN \<Longrightarrow> b \<noteq> NaN \<Longrightarrow> (Fin 0 < a - b) = (b < a)"
  by (cases a; cases b) (auto simp: minus_jsnum_def)

lemma js_eq_iff: "a \<noteq> NaN \<Longrightarrow> js_eq a b = (a = b)"
  by (auto simp: js_eq_def)

subsection \<open>The sort\<close>

lemma mset_js_insert: "mset (js_insert cmp x xs) = add_mset x (mset xs)"
  by (induction xs) auto

lemma mset_js_sort: "mset (js_sort cmp xs) = mset xs"
  by (induction xs) (auto simp: mset_js_insert)

lemma set_js_sort: "set (js_sort cmp xs) = set xs"
  by (metis mset_js_sort set_mset_mset)

lemma length_js_sort: "length (js_sort cmp xs) = length xs"
  by (metis mset_js_sort size_mset)

lemma sorted_js_insert:
  assumes ord: "\<And>a b. a \<in> S \<Longrightarrow> b \<in> S \<Longrightarrow> (Fin 0 < cmp a b) = (\<not> R a b)"
    and tot: "\<And>a b. a \<in> S \<Longrightarrow> b \<in> S \<Longrightarrow> R a b \<or> R b a"
    and trans: "\<And>a b c. R a b \<Longrightarrow> R b c \<Longrightarrow> R a c"
  shows "x \<in> S \<Longrightarrow> set xs \<subseteq> S \<Longrightarrow> sorted_wrt R xs \<Longrightarrow> sorted_wrt R (js_insert cmp x xs)"
proof (induction xs)
  case Nil
  then show ?case by simp
next
  case (Cons y ys)
  show ?case
  proof (cases "Fin 0 < cmp x y")
    case True
    with Cons.prems ord have "\<not> R x y" by simp
    with tot Cons.prems have yx: "R y x" by auto
    have "sorted_wrt R (js_insert cmp x ys)" using Cons by simp
    moreover have "\<forall>z \<in> set (js_insert cmp x ys). R y z"
      using Cons.prems yx by (metis mset_js_insert set_mset_add_mset_insert set_mset_mset insertE sorted_wrt.simps(2))
    ultimately show ?thesis using True by simp
  next
    case False
    with Cons.prems ord have xy: "R x y" by simp
    then have "\<forall>z \<in> set (y # ys). R x z"
      using Cons.prems(3) trans by auto
    then show ?thesis using False Cons.prems by simp
  qed
qed

lemma sorted_js_sort:
  assumes ord: "\<And>a b. a \<in> S \<Longrightarrow> b \<in> S \<Longrightarrow> (Fin 0 < cmp a b) = (\<not> R a b)"
    and tot: "\<And>a b. a \<in> S \<Longrightarrow> b \<in> S \<Longrightarrow> R a b \<or> R b a"
    and trans: "\<And>a b c. R a b \<Longrightarrow> R b c \<Longrightarrow> R a c"
  shows "set xs \<subseteq> S \<Longrightarrow> sorted_wrt R (js_sort cmp xs)"
proof (induction xs)
  case Nil
  then show ?case by simp
next
  case (Cons x xs)
  then have "sorted_wrt R (js_sort cmp xs)" by simp
  moreover have "set (js_sort cmp xs) \<subseteq> S" using Cons.prems by (simp add: set_js_sort)
  ultimately show ?case
    using sorted_js_insert [of S cmp R x "js_sort cmp xs", OF ord tot trans] Cons.prems
    by simp
qed

lemma js_insert_sorted_id:
  assumes ord: "\<And>a b. a \<in> S \<Longrightarrow> b \<in> S \<Longrightarrow> (Fin 0 < cmp a b) = (\<not> R a b)"
  shows "x \<in> S \<Longrightarrow> set xs \<subseteq> S \<Longrightarrow> sorted_wrt R (x # xs) \<Longrightarrow> js_insert cmp x xs = x # xs"
  by (cases xs) (auto simp: ord)

lemma js_sort_sorted_id:
  assumes ord: "\<And>a b. a \<in> S \<Longrightarrow> b \<in> S \<Longrightarrow> (Fin 0 < cmp a b) = (\<not> R a b)"
  shows "set xs \<subseteq> S \<Longrightarrow> sorted_wrt R xs \<Longrightarrow> js_sort cmp xs = xs"
proof (induction xs)
  case Nil
  then show ?case by simp
next
  case (Cons x xs)
  then have "js_sort cmp xs = xs" by simp
  then show ?case
    using js_insert_sorted_id [of S cmp R x xs, OF ord] Cons.prems by simp
qed

lemma cmpAsc_ord:
  "a \<in> {l. l_price l \<noteq> NaN} \<Longrightarrow> b \<in> {l. l_price l \<noteq> NaN} \<Longrightarrow>
   (Fin 0 < cmpAsc a b) = (\<not> l_price a \<le> l_price b)"
  by (simp add: cmpAsc_def jsub_pos jnot_le)

lemma cmpDesc_ord:
  "a \<in> {l. l_price l \<noteq> NaN} \<Longrightarrow> b \<in> {l. l_price l \<noteq> NaN} \<Longrightarrow>
   (Fin 0 < cmpDesc a b) = (\<not> l_price b \<le> l_price a)"
  by (simp add: cmpDesc_def jsub_pos jnot_le)

lemma numericPrices_subset: "numericPrices ls = (set ls \<subseteq> {l. l_price l \<noteq> NaN})"
  by (auto simp: numericPrices_def list_all_iff)

lemma ascending_js_sort: "numericPrices ls \<Longrightarrow> ascending (js_sort cmpAsc ls)"
  unfolding ascending_def numericPrices_subset
  by (rule sorted_js_sort [where S = "{l. l_price l \<noteq> NaN}"])
     (auto simp: cmpAsc_ord dest: jle_total intro: jle_trans)

lemma descending_js_sort: "numericPrices ls \<Longrightarrow> descending (js_sort cmpDesc ls)"
  unfolding descending_def numericPrices_subset
  by (rule sorted_js_sort [where S = "{l. l_price l \<noteq> NaN}"])
     (auto simp: cmpDesc_ord dest: jle_total intro: jle_trans)

lemma js_sort_ascending_id: "numericPrices ls \<Longrightarrow> ascending ls \<Longrightarrow> js_sort cmpAsc ls = ls"
  unfolding ascending_def numericPrices_subset
  by (rule js_sort_sorted_id [where S = "{l. l_price l \<noteq> NaN}"]) (auto simp: cmpAsc_ord)

lemma js_sort_descending_id: "numericPrices ls \<Longrightarrow> descending ls \<Longrightarrow> js_sort cmpDesc ls = ls"
  unfolding descending_def numericPrices_subset
  by (rule js_sort_sorted_id [where S = "{l. l_price l \<noteq> NaN}"]) (auto simp: cmpDesc_ord)

lemma numericPrices_js_sort: "numericPrices (js_sort cmp ls) = numericPrices ls"
  by (simp add: numericPrices_subset set_js_sort)

lemma strict_imp_distinct_asc: "strictlyAscending ls \<Longrightarrow> distinct (map l_price ls)"
  unfolding strictlyAscending_def
  by (induction ls) (auto simp: jless_iff)

lemma strict_imp_distinct_desc: "strictlyDescending ls \<Longrightarrow> distinct (map l_price ls)"
  unfolding strictlyDescending_def
  by (induction ls) (auto simp: jless_iff)

lemma strictlyAscending_iff:
  "strictlyAscending ls = (ascending ls \<and> distinct (map l_price ls))"
  unfolding strictlyAscending_def ascending_def
  by (induction ls) (auto simp: jless_iff)

lemma strictlyDescending_iff:
  "strictlyDescending ls = (descending ls \<and> distinct (map l_price ls))"
  unfolding strictlyDescending_def descending_def
  by (induction ls) (auto simp: jless_iff image_iff)

lemma distinct_prices_js_sort:
  "distinct (map l_price (js_sort cmp ls)) = distinct (map l_price ls)"
proof -
  have "mset (map l_price (js_sort cmp ls)) = mset (map l_price ls)"
    by (simp add: mset_js_sort)
  then show ?thesis by (rule mset_eq_imp_distinct_iff)
qed

lemma findIndex_None: "(findIndex P xs = None) = (\<forall>x \<in> set xs. \<not> P x)"
  by (induction xs) auto

lemma findIndex_Some: "findIndex P xs = Some i \<Longrightarrow> i < length xs \<and> P (xs ! i)"
  by (induction xs arbitrary: i) (auto split: if_splits)

lemma findIndex_price:
  assumes num: "p \<noteq> NaN"
  shows "(findIndex (\<lambda>l. js_eq (l_price l) p) levels = None) = (\<forall>l \<in> set levels. l_price l \<noteq> p)"
    and "findIndex (\<lambda>l. js_eq (l_price l) p) levels = Some i \<Longrightarrow>
         i < length levels \<and> l_price (levels ! i) = p"
  using num findIndex_Some [of "\<lambda>l. js_eq (l_price l) p" levels i]
  by (auto simp: findIndex_None js_eq_def)

lemma updateLevel_insert:
  assumes num: "p \<noteq> NaN"
    and nex: "\<forall>l \<in> set levels. l_price l \<noteq> p" and nz: "\<not> js_eq s (Fin 0)"
  shows "mset (updateLevel levels p s isBid) = add_mset \<lparr>l_price = p, l_size = s\<rparr> (mset levels)"
  using nz findIndex_price(1) [OF num, of levels] nex
  by (simp add: updateLevel_def mset_js_sort Let_def)

lemma findIndex_removeFirst:
  "p \<noteq> NaN \<Longrightarrow> findIndex (\<lambda>l. js_eq (l_price l) p) ls = Some i \<Longrightarrow>
   splice1 i ls = removeFirst p ls"
proof (induction ls arbitrary: i)
  case Nil
  then show ?case by simp
next
  case (Cons l ls)
  show ?case
  proof (cases "l_price l = p")
    case True
    then have "i = 0" using Cons.prems by (simp add: js_eq_def)
    then show ?thesis using True by (simp add: splice1_def)
  next
    case False
    then obtain j where j: "findIndex (\<lambda>l. js_eq (l_price l) p) ls = Some j" "i = Suc j"
      using Cons.prems by (auto simp: js_eq_def)
    then have "splice1 j ls = removeFirst p ls" using Cons by simp
    then show ?thesis using False j by (simp add: splice1_def)
  qed
qed

lemma findIndex_resizeFirst:
  "p \<noteq> NaN \<Longrightarrow> findIndex (\<lambda>l. js_eq (l_price l) p) ls = Some i \<Longrightarrow>
   ls[i := (ls ! i)\<lparr>l_size := s\<rparr>] = resizeFirst p s ls"
proof (induction ls arbitrary: i)
  case Nil
  then show ?case by simp
next
  case (Cons l ls)
  show ?case
  proof (cases "l_price l = p")
    case True
    then have "i = 0" using Cons.prems by (simp add: js_eq_def)
    then show ?thesis using True by simp
  next
    case False
    then obtain j where j: "findIndex (\<lambda>l. js_eq (l_price l) p) ls = Some j" "i = Suc j"
      using Cons.prems by (auto simp: js_eq_def)
    then have "ls[j := (ls ! j)\<lparr>l_size := s\<rparr>] = resizeFirst p s ls" using Cons by simp
    then show ?thesis using False j by simp
  qed
qed

lemma set_removeFirst: "set (removeFirst p ls) \<subseteq> set ls"
  by (induction ls) auto

lemma sorted_wrt_removeFirst: "sorted_wrt R ls \<Longrightarrow> sorted_wrt R (removeFirst p ls)"
  using set_removeFirst by (induction ls) fastforce+

lemma prices_resizeFirst: "map l_price (resizeFirst p s ls) = map l_price ls"
  by (induction ls) auto

lemma distinct_removeFirst:
  "distinct (map l_price ls) \<Longrightarrow> distinct (map l_price (removeFirst p ls))"
  using set_removeFirst by (induction ls) fastforce+

lemma removeFirst_filter:
  "distinct (map l_price ls) \<Longrightarrow> removeFirst p ls = filter (\<lambda>l. l_price l \<noteq> p) ls"
proof (induction ls)
  case Nil
  then show ?case by simp
next
  case (Cons l ls)
  show ?case
  proof (cases "l_price l = p")
    case True
    then have "filter (\<lambda>l. l_price l \<noteq> p) ls = ls"
      using Cons.prems by (intro filter_True) (auto simp: image_iff)
    then show ?thesis using True by simp
  next
    case False
    then show ?thesis using Cons by simp
  qed
qed

lemma sideSorted_prices:
  "map l_price ls' = map l_price ls \<Longrightarrow> sideSorted sd ls \<Longrightarrow> sideSorted sd ls'"
proof -
  assume m: "map l_price ls' = map l_price ls" and s: "sideSorted sd ls"
  have a: "sorted_wrt (\<lambda>a b. R (l_price a) (l_price b)) xs = sorted_wrt R (map l_price xs)"
    for R and xs :: "OrderBookLevel list"
    by (simp add: sorted_wrt_map)
  have n: "numericPrices ls' = numericPrices ls"
  proof -
    have "numericPrices xs = (NaN \<notin> set (map l_price xs))" for xs
      by (induction xs) (auto simp: numericPrices_def)
    then show ?thesis using m by metis
  qed
  have "descending ls' = descending ls" "ascending ls' = ascending ls"
    unfolding descending_def ascending_def
    using a [of "\<lambda>x y. y \<le> x"] a [of "\<lambda>x y. x \<le> y"] m by simp_all
  then show ?thesis using s n by (simp add: sideSorted_def)
qed

lemma sideSorted_removeFirst: "sideSorted sd ls \<Longrightarrow> sideSorted sd (removeFirst p ls)"
  using set_removeFirst [of p ls]
  by (auto simp: sideSorted_def numericPrices_def list_all_iff descending_def ascending_def
      sorted_wrt_removeFirst)

lemma sideSorted_sort_id:
  "sideSorted sd ls \<Longrightarrow>
   (sd = BUY \<longrightarrow> js_sort cmpDesc ls = ls) \<and> (sd \<noteq> BUY \<longrightarrow> js_sort cmpAsc ls = ls)"
  by (auto simp: sideSorted_def js_sort_ascending_id js_sort_descending_id)

lemma sideSorted_sort:
  "numericPrices ls \<Longrightarrow>
   (sd = BUY \<longrightarrow> sideSorted sd (js_sort cmpDesc ls))
   \<and> (sd \<noteq> BUY \<longrightarrow> sideSorted sd (js_sort cmpAsc ls))"
  by (auto simp: sideSorted_def numericPrices_js_sort ascending_js_sort descending_js_sort)

lemma exists_findIndex:
  assumes num: "p \<noteq> NaN" and ex: "\<exists>l \<in> set ls. l_price l = p"
  shows "\<exists>i. findIndex (\<lambda>l. js_eq (l_price l) p) ls = Some i"
  using findIndex_price(1) [OF num, of ls] ex
  by (cases "findIndex (\<lambda>l. js_eq (l_price l) p) ls") auto

lemma updateLevel_removeFirst:
  assumes srt: "sideSorted sd levels" and num: "p \<noteq> NaN"
    and ex: "\<exists>l \<in> set levels. l_price l = p"
  shows "updateLevel levels p (Fin 0) (sd = BUY) = removeFirst p levels"
proof -
  obtain i where i: "findIndex (\<lambda>l. js_eq (l_price l) p) levels = Some i"
    using exists_findIndex [OF num ex] by blast
  have sp: "splice1 i levels = removeFirst p levels"
    using findIndex_removeFirst [OF num i] .
  have z: "js_eq (Fin 0) (Fin 0)" by (simp add: js_eq_def)
  show ?thesis
    using sideSorted_sort_id [OF sideSorted_removeFirst [OF srt], of p] z
    by (simp add: updateLevel_def i sp Let_def)
qed

lemma updateLevel_resizeFirst:
  assumes srt: "sideSorted sd levels" and num: "p \<noteq> NaN"
    and ex: "\<exists>l \<in> set levels. l_price l = p" and nz: "\<not> js_eq s (Fin 0)"
  shows "updateLevel levels p s (sd = BUY) = resizeFirst p s levels"
proof -
  obtain i where i: "findIndex (\<lambda>l. js_eq (l_price l) p) levels = Some i"
    using exists_findIndex [OF num ex] by blast
  have up: "levels[i := (levels ! i)\<lparr>l_size := s\<rparr>] = resizeFirst p s levels"
    using findIndex_resizeFirst [OF num i] .
  have "sideSorted sd (resizeFirst p s levels)"
    using sideSorted_prices [OF prices_resizeFirst srt] .
  from sideSorted_sort_id [OF this] show ?thesis
    using nz by (simp add: updateLevel_def i up Let_def)
qed

lemma updateLevel_sideSorted:
  assumes srt: "sideSorted sd levels" and num: "p \<noteq> NaN"
  shows "sideSorted sd (updateLevel levels p s (sd = BUY))
         \<and> (distinct (map l_price levels)
              \<longrightarrow> distinct (map l_price (updateLevel levels p s (sd = BUY))))"
proof (cases "\<exists>l \<in> set levels. l_price l = p")
  case True
  show ?thesis
  proof (cases "js_eq s (Fin 0)")
    case True
    then have "s = Fin 0" by (simp add: js_eq_def)
    then show ?thesis
      using updateLevel_removeFirst [OF srt num \<open>\<exists>l \<in> set levels. l_price l = p\<close>]
        sideSorted_removeFirst [OF srt, of p] distinct_removeFirst [of levels p]
      by simp
  next
    case False
    show ?thesis
      using updateLevel_resizeFirst [OF srt num \<open>\<exists>l \<in> set levels. l_price l = p\<close> False]
        sideSorted_prices [OF prices_resizeFirst srt, of p s]
      by (simp add: prices_resizeFirst)
  qed
next
  case False
  then have none: "findIndex (\<lambda>l. js_eq (l_price l) p) levels = None"
    using findIndex_price(1) [OF num, of levels] by simp
  show ?thesis
  proof (cases "js_eq s (Fin 0)")
    case True
    then show ?thesis
      using none sideSorted_sort_id [OF srt] srt by (auto simp: updateLevel_def Let_def)
  next
    case nz: False
    have n: "numericPrices (levels @ [\<lparr>l_price = p, l_size = s\<rparr>])"
      using srt num by (simp add: sideSorted_def numericPrices_def)
    have d: "distinct (map l_price levels) \<Longrightarrow>
             distinct (map l_price (levels @ [\<lparr>l_price = p, l_size = s\<rparr>]))"
      using False by (auto simp: image_iff)
    show ?thesis
      using nz none sideSorted_sort [OF n, of sd] d
      by (auto simp: updateLevel_def Let_def distinct_prices_js_sort)
  qed
qed

lemma sideLevels_applyChange:
  "pc_asset_id change = tid \<Longrightarrow>
   sideLevels (pc_side change) (applyChange tid change ob)
   = updateLevel (sideLevels (pc_side change) ob) (parseFloat (pc_price change))
       (parseFloat (pc_size change)) (pc_side change = BUY)"
  by (cases "pc_side change") (simp_all add: applyChange_def sideLevels_def Let_def)

lemma foldl_applyChange_foreign:
  "\<forall>ch \<in> set chs. pc_asset_id ch \<noteq> tid \<Longrightarrow>
   foldl (\<lambda>ob change. applyChange tid change ob) ob chs = ob"
  by (induction chs arbitrary: ob) (auto simp: applyChange_def)

lemma updateLevel_NaN:
  assumes nz: "\<not> js_eq s (Fin 0)"
  shows "mset (updateLevel levels NaN s isBid) = add_mset \<lparr>l_price = NaN, l_size = s\<rparr> (mset levels)"
proof -
  have "findIndex (\<lambda>l. js_eq (l_price l) NaN) levels = None"
    by (simp add: findIndex_None js_eq_def)
  then show ?thesis using nz by (simp add: updateLevel_def mset_js_sort Let_def)
qed

lemma handlePriceChange_sides:
  "bids (orderBook (handlePriceChange m c))
     = bids (foldl (\<lambda>ob change. applyChange (tokenId c) change ob) (orderBook c)
              (pcm_price_changes m))"
  "asks (orderBook (handlePriceChange m c))
     = asks (foldl (\<lambda>ob change. applyChange (tokenId c) change ob) (orderBook c)
              (pcm_price_changes m))"
  "lastUpdate (orderBook (handlePriceChange m c)) = parseInt (pcm_timestamp m)"
  by (simp_all add: handlePriceChange_def)

section \<open>Facts about the ledger\<close>


lemma recalculateValue_idem: "recalculateValue (recalculateValue tr) = recalculateValue tr"
  by (simp add: recalculateValue_def Let_def)

lemma recalculateValue_clear: "recalculateValue (clear tr) = clear tr"
  by (simp add: recalculateValue_def clear_def Let_def minus_jsnum_def)

lemma recalculateValue_newTracker: "recalculateValue newTracker = newTracker"
  by (simp add: recalculateValue_def newTracker_def Let_def minus_jsnum_def)

lemma runLedger_snoc: "runLedger (ops @ [op]) = applyOp (runLedger ops) op"
  by (simp add: runLedger_def)

lemma recalculateValue_applyOp:
  "recalculateValue tr = tr \<Longrightarrow> recalculateValue (applyOp tr op) = applyOp tr op"
  by (cases op)
     (simp_all add: addTrade_def setPrice_def updatePrices_def Let_def recalculateValue_idem
        recalculateValue_clear)

lemma recalculateValue_runLedger: "recalculateValue (runLedger ops) = runLedger ops"
proof (induction ops rule: rev_induct)
  case Nil
  then show ?case by (simp add: runLedger_def recalculateValue_newTracker)
next
  case (snoc op ops)
  then show ?case by (simp add: runLedger_snoc recalculateValue_applyOp)
qed

lemma recalculateValue_frame:
  "positions (portfolio (recalculateValue tr)) = positions (portfolio tr)"
  "totalCost (portfolio (recalculateValue tr)) = totalCost (portfolio tr)"
  "realizedPnL (portfolio (recalculateValue tr)) = realizedPnL (portfolio tr)"
  "currentPrices (recalculateValue tr) = currentPrices tr"
  by (simp_all add: recalculateValue_def Let_def)

lemma goodPosition_Fin:
  "goodPosition p \<Longrightarrow>
   \<exists>sh a. shares p = Fin sh \<and> 0 < sh \<and> averagePrice p = Fin a \<and> pos_totalCost p = Fin (a * sh)"
  unfolding goodPosition_def
  by (cases "shares p"; cases "averagePrice p") auto

lemma foldl_costs:
  "list_all (\<lambda>(tid, position). goodPosition position) ps \<Longrightarrow>
   foldl (\<lambda>acc (tid, position). acc + pos_totalCost position) (Fin a) ps = Fin (a + costs ps)"
proof (induction ps arbitrary: a)
  case Nil
  then show ?case by (simp add: costs_def)
next
  case (Cons x ps)
  obtain k p where x: "x = (k, p)" by (cases x)
  with Cons.prems have "goodPosition p" by simp
  then obtain t where t: "pos_totalCost p = Fin t"
    using goodPosition_Fin by blast
  have "foldl (\<lambda>acc (tid, position). acc + pos_totalCost position) (Fin (a + t)) ps
        = Fin (a + t + costs ps)"
    using Cons by simp
  then show ?case using x t by (simp add: costs_def add.assoc)
qed

lemma sumTotalCost_costs:
  "list_all (\<lambda>(tid, position). goodPosition position) ps \<Longrightarrow> sumTotalCost ps = Fin (costs ps)"
  using foldl_costs [of ps 0] by (simp add: sumTotalCost_def)

lemma costs_update_present:
  "distinct (map fst ps) \<Longrightarrow> map_of ps k = Some e \<Longrightarrow>
   costs (AList.update k v ps)
   = costs ps - the_Fin (pos_totalCost e) + the_Fin (pos_totalCost v)"
  by (induction ps) (auto simp: costs_def)

lemma costs_update_absent:
  "map_of ps k = None \<Longrightarrow> costs (AList.update k v ps) = costs ps + the_Fin (pos_totalCost v)"
  by (induction ps) (auto simp: costs_def split: if_splits)

lemma costs_delete_present:
  "distinct (map fst ps) \<Longrightarrow> map_of ps k = Some e \<Longrightarrow>
   costs (AList.delete k ps) = costs ps - the_Fin (pos_totalCost e)"
proof (induction ps)
  case Nil
  then show ?case by simp
next
  case (Cons x ps)
  obtain k' p where x: "x = (k', p)" by (cases x)
  show ?case
  proof (cases "k' = k")
    case True
    then have "k \<notin> fst ` set ps" using Cons.prems x by auto
    then have "AList.delete k ps = ps"
      by (force simp: AList.delete_eq intro!: filter_True)
    then show ?thesis using True x Cons.prems by (simp add: costs_def)
  next
    case False
    then show ?thesis using x Cons by (simp add: costs_def)
  qed
qed

lemma list_all_update:
  "list_all P ps \<Longrightarrow> P (k, v) \<Longrightarrow> list_all P (AList.update k v ps)"
  by (induction ps) auto

lemma list_all_delete: "list_all P ps \<Longrightarrow> list_all P (AList.delete k ps)"
  by (simp add: AList.delete_eq list_all_iff)

lemma map_of_good:
  "list_all (\<lambda>(tid, position). goodPosition position) ps \<Longrightarrow> map_of ps k = Some e \<Longrightarrow>
   goodPosition e"
  by (auto simp: list_all_iff dest: map_of_SomeD)

lemma ledgerInvariantI:
  "distinct (map fst ps) \<Longrightarrow> list_all (\<lambda>(tid, position). goodPosition position) ps \<Longrightarrow>
   tc = Fin (costs ps) \<Longrightarrow> positions (portfolio tr) = ps \<Longrightarrow> totalCost (portfolio tr) = tc \<Longrightarrow>
   ledgerInvariant tr"
  by (simp add: ledgerInvariant_def sumTotalCost_costs)

lemma postFill_invariant:
  assumes inv: "ledgerInvariant tr" and q: "0 < q"
  shows "ledgerInvariant (postFill tid oc side (Fin p) (Fin q) ts tr)"
proof -
  let ?ps = "positions (portfolio tr)"
  have d: "distinct (map fst ?ps)"
    and g: "list_all (\<lambda>(tid, position). goodPosition position) ?ps"
    and t: "totalCost (portfolio tr) = Fin (costs ?ps)"
    using inv by (simp_all add: ledgerInvariant_def sumTotalCost_costs)
  show ?thesis
  proof (cases "map_of ?ps tid")
    case None
    show ?thesis
    proof (cases side)
      case BUY
      let ?new = "\<lparr>pos_tokenId = tid, pos_outcome = oc, pos_side = toUpperCase oc,
                    shares = Fin q, averagePrice = Fin p, pos_totalCost = Fin p * Fin q,
                    firstPurchaseTime = ts, lastPurchaseTime = ts\<rparr>"
      have gn: "goodPosition ?new" using q by (simp add: goodPosition_def)
      show ?thesis
      proof (rule ledgerInvariantI [where ps = "AList.update tid ?new ?ps"
              and tc = "Fin (costs ?ps + p * q)"])
        show "distinct (map fst (AList.update tid ?new ?ps))"
          using d by (rule distinct_update)
        show "list_all (\<lambda>(tid, position). goodPosition position) (AList.update tid ?new ?ps)"
          using g gn by (simp add: list_all_update)
        show "Fin (costs ?ps + p * q) = Fin (costs (AList.update tid ?new ?ps))"
          using None by (simp add: costs_update_absent)
        show "positions (portfolio (postFill tid oc side (Fin p) (Fin q) ts tr))
              = AList.update tid ?new ?ps"
          using None BUY by (simp add: postFill_def Let_def)
        show "totalCost (portfolio (postFill tid oc side (Fin p) (Fin q) ts tr))
              = Fin (costs ?ps + p * q)"
          using None BUY t by (simp add: postFill_def Let_def)
      qed
    next
      case SELL
      then show ?thesis using None inv by (simp add: postFill_def Let_def)
    qed
  next
    case (Some e)
    then have "goodPosition e" using g by (rule map_of_good [rotated])
    then obtain sh a where sh: "shares e = Fin sh" "0 < sh"
      and a: "averagePrice e = Fin a" and tc: "pos_totalCost e = Fin (a * sh)"
      using goodPosition_Fin by blast
    show ?thesis
    proof (cases side)
      case BUY
      let ?new = "e\<lparr>averagePrice := Fin ((a * sh + p * q) / (sh + q)), shares := Fin (sh + q),
                    pos_totalCost := Fin (a * sh + p * q), lastPurchaseTime := ts\<rparr>"
      have nz: "sh + q \<noteq> 0" using sh q by simp
      have gn: "goodPosition ?new" using sh q nz by (simp add: goodPosition_def)
      show ?thesis
      proof (rule ledgerInvariantI [where ps = "AList.update tid ?new ?ps"
              and tc = "Fin (costs ?ps + p * q)"])
        show "distinct (map fst (AList.update tid ?new ?ps))"
          using d by (rule distinct_update)
        show "list_all (\<lambda>(tid, position). goodPosition position) (AList.update tid ?new ?ps)"
          using g gn by (simp add: list_all_update)
        show "Fin (costs ?ps + p * q) = Fin (costs (AList.update tid ?new ?ps))"
          using Some d tc by (simp add: costs_update_present)
        show "positions (portfolio (postFill tid oc side (Fin p) (Fin q) ts tr))
              = AList.update tid ?new ?ps"
          using Some BUY sh a tc nz by (simp add: postFill_def Let_def)
        show "totalCost (portfolio (postFill tid oc side (Fin p) (Fin q) ts tr))
              = Fin (costs ?ps + p * q)"
          using Some BUY t by (simp add: postFill_def Let_def)
      qed
    next
      case SELL
      show ?thesis
      proof (cases "q \<le> sh")
        case False
        then show ?thesis using Some SELL sh inv by (simp add: postFill_def Let_def)
      next
        case le: True
        show ?thesis
        proof (cases "sh = q")
          case True
          show ?thesis
          proof (rule ledgerInvariantI [where ps = "AList.delete tid ?ps"
                  and tc = "Fin (costs ?ps - a * q)"])
            show "distinct (map fst (AList.delete tid ?ps))"
              using d by (rule distinct_delete)
            show "list_all (\<lambda>(tid, position). goodPosition position) (AList.delete tid ?ps)"
              using g by (rule list_all_delete)
            show "Fin (costs ?ps - a * q) = Fin (costs (AList.delete tid ?ps))"
              using Some d tc True by (simp add: costs_delete_present)
            show "positions (portfolio (postFill tid oc side (Fin p) (Fin q) ts tr))
                  = AList.delete tid ?ps"
              using Some SELL sh a True
              by (simp add: postFill_def Let_def minus_jsnum_def js_eq_def)
            show "totalCost (portfolio (postFill tid oc side (Fin p) (Fin q) ts tr))
                  = Fin (costs ?ps - a * q)"
              using Some SELL sh a t True
              by (simp add: postFill_def Let_def minus_jsnum_def js_eq_def)
          qed
        next
          case False
          let ?new = "e\<lparr>shares := Fin (sh - q), pos_totalCost := Fin (a * sh - a * q)\<rparr>"
          have gn: "goodPosition ?new"
            using le False a by (simp add: goodPosition_def algebra_simps)
          show ?thesis
          proof (rule ledgerInvariantI [where ps = "AList.update tid ?new ?ps"
                  and tc = "Fin (costs ?ps - a * q)"])
            show "distinct (map fst (AList.update tid ?new ?ps))"
              using d by (rule distinct_update)
            show "list_all (\<lambda>(tid, position). goodPosition position) (AList.update tid ?new ?ps)"
              using g gn by (simp add: list_all_update)
            show "Fin (costs ?ps - a * q) = Fin (costs (AList.update tid ?new ?ps))"
              using Some d tc by (simp add: costs_update_present)
            show "positions (portfolio (postFill tid oc side (Fin p) (Fin q) ts tr))
                  = AList.update tid ?new ?ps"
              using Some SELL sh a tc le False
              by (simp add: postFill_def Let_def minus_jsnum_def js_eq_def)
            show "totalCost (portfolio (postFill tid oc side (Fin p) (Fin q) ts tr))
                  = Fin (costs ?ps - a * q)"
              using Some SELL sh a t le False
              by (simp add: postFill_def Let_def minus_jsnum_def js_eq_def)
          qed
        qed
      qed
    qed
  qed
qed

lemma recalculateValue_invariant:
  "ledgerInvariant (recalculateValue tr) = ledgerInvariant tr"
  by (simp add: ledgerInvariant_def recalculateValue_frame)

lemma applyOp_invariant:
  assumes inv: "ledgerInvariant tr" and ok: "properFill op"
  shows "ledgerInvariant (applyOp tr op)"
proof (cases op)
  case (AddTrade tid oc side price sz ts)
  with ok obtain p q where "price = Fin p" "sz = Fin q" "0 < q"
    by (cases price; cases sz) auto
  then show ?thesis
    using AddTrade postFill_invariant [OF inv, of q tid oc side p ts]
    by (simp add: addTrade_def recalculateValue_invariant)
next
  case (SetPrice tid price)
  then show ?thesis
    using inv by (simp add: setPrice_def ledgerInvariant_def recalculateValue_frame)
next
  case (UpdatePrices tid ob)
  then show ?thesis
    using inv by (simp add: updatePrices_def Let_def ledgerInvariant_def recalculateValue_frame)
next
  case Clear
  then show ?thesis by (simp add: clear_def ledgerInvariant_def sumTotalCost_def)
qed

lemma runLedger_invariant: "list_all properFill ops \<Longrightarrow> ledgerInvariant (runLedger ops)"
proof (induction ops rule: rev_induct)
  case Nil
  then show ?case by (simp add: runLedger_def newTracker_def ledgerInvariant_def sumTotalCost_def)
next
  case (snoc op ops)
  then show ?case by (simp add: runLedger_snoc applyOp_invariant)
qed

lemma currentValue_recalculateValue:
  "currentValue (portfolio (recalculateValue tr))
     = markedValue (currentPrices tr) (positions (portfolio tr))
   \<and> unrealizedPnL (portfolio (recalculateValue tr))
     = currentValue (portfolio (recalculateValue tr)) - totalCost (portfolio tr)"
  by (simp add: recalculateValue_def markedValue_def js_or_undef_def js_or_def Let_def
      cong: option.case_cong)

text \<open>
  When every fill has a finite price and a finite positive size, no division by zero
  occurs and the total that the ledger keeps by adding and subtracting is the sum over
  the live positions; current value and unrealized P&L are what \<open>recalculateValue\<close> stores.
\<close>

lemma ledger_totals_proper_fills:
  assumes "list_all properFill ops"
  shows "totalCost (portfolio (runLedger ops)) = sumTotalCost (positions (portfolio (runLedger ops)))
       \<and> currentValue (portfolio (runLedger ops))
           = markedValue (currentPrices (runLedger ops)) (positions (portfolio (runLedger ops)))
       \<and> unrealizedPnL (portfolio (runLedger ops))
           = currentValue (portfolio (runLedger ops)) - totalCost (portfolio (runLedger ops))"
proof -
  have "ledgerInvariant (runLedger ops)" using assms by (rule runLedger_invariant)
  moreover note currentValue_recalculateValue [of "runLedger ops"]
  ultimately show ?thesis
    by (simp add: recalculateValue_runLedger ledgerInvariant_def)
qed

text \<open>
  The other copy of the ledger stores the recomputed sum on every call, so there the
  total cost is the sum over the live positions after any fill, proper or not.
\<close>

lemma snd_foldl_pair:
  "snd (foldl (\<lambda>(cv, rtc) (tid, position). (f cv tid position, rtc + pos_totalCost position))
          (c, a) ps)
   = foldl (\<lambda>acc (tid, position). acc + pos_totalCost position) a ps"
  by (induction ps arbitrary: c a) (auto split: prod.splits)

lemma totalCost_recalculateValue_recomputing:
  "totalCost (portfolio (recalculateValue_recomputing tr))
   = sumTotalCost (positions (portfolio (recalculateValue_recomputing tr)))"
proof -
  let ?f = "\<lambda>cv tid position.
              cv + js_or_undef (map_of (currentPrices tr) tid) (Fin 0) * shares position"
  obtain cv rtc where f: "foldl (\<lambda>(cv, rtc) (tid, position).
         (?f cv tid position, rtc + pos_totalCost position))
        (Fin 0, Fin 0) (positions (portfolio tr)) = (cv, rtc)"
    by (cases "foldl (\<lambda>(cv, rtc) (tid, position).
         (?f cv tid position, rtc + pos_totalCost position))
        (Fin 0, Fin 0) (positions (portfolio tr))") auto
  have "rtc = sumTotalCost (positions (portfolio tr))"
    using snd_foldl_pair [of ?f "Fin 0" "Fin 0" "positions (portfolio tr)"] f
    by (simp add: sumTotalCost_def)
  then show ?thesis
    using f by (simp add: recalculateValue_recomputing_def)
qed

lemma totalCost_addTrade_recomputing:
  "totalCost (portfolio (addTrade_recomputing tid oc side price sz ts tr))
   = sumTotalCost (positions (portfolio (addTrade_recomputing tid oc side price sz ts tr)))"
  unfolding addTrade_recomputing_def by (rule totalCost_recalculateValue_recomputing)

lemma recomputing_at_failing_input:
  "totalCost (portfolio
     (addTrade_recomputing ''t'' ''Yes'' SELL (Fin (1 / 2)) (Fin 0) (Fin 3)
       (addTrade_recomputing ''t'' ''Yes'' BUY (Fin (1 / 2)) (Fin 0) (Fin 2)
         (addTrade_recomputing ''t'' ''Yes'' BUY (Fin (1 / 2)) (Fin 0) (Fin 1) newTracker))))
   = Fin 0"
  by code_simp

section \<open>Facts about the PollBuy strategy\<close>

lemma PollBuy_evaluate_frame:
  "pb_config (snd (PollBuy_evaluate now ctx s)) = pb_config s"
  "targetTokenId (snd (PollBuy_evaluate now ctx s)) = targetTokenId s"
  by (simp_all add: PollBuy_evaluate_def Let_def)

lemma PollBuy_evaluate_fires:
  assumes "cfg_enabled (pb_config s)" and "cfg_intervalSeconds (pb_config s) = Some (Fin 15)"
    and "lastExecutionTime s = Fin (of_int L)"
  shows "shouldExecute (fst (PollBuy_evaluate now ctx s)) = (15000 \<le> now - L)"
    and "lastExecutionTime (snd (PollBuy_evaluate now ctx s))
         = Fin (of_int (if 15000 \<le> now - L then now else L))"
    and "trade (fst (PollBuy_evaluate now ctx s))
         = (if 15000 \<le> now - L
            then Some \<lparr>ti_side = BUY, ti_size = js_or_undef (cfg_buySize (pb_config s)) (Fin 1),
                       ti_price = None, ti_tokenId = nonEmpty (targetTokenId s)\<rparr>
            else None)"
proof -
  have "(Fin 15000 \<le> Fin (of_int now) - Fin (of_int L)) = (15000 \<le> now - L)"
  proof -
    have "(15000 \<le> (of_int now :: rat) - of_int L) = (15000 \<le> now - L)"
      by (metis of_int_diff of_int_le_iff of_int_numeral)
    then show ?thesis by (simp add: minus_jsnum_def)
  qed
  then show "shouldExecute (fst (PollBuy_evaluate now ctx s)) = (15000 \<le> now - L)"
    and "lastExecutionTime (snd (PollBuy_evaluate now ctx s))
         = Fin (of_int (if 15000 \<le> now - L then now else L))"
    and "trade (fst (PollBuy_evaluate now ctx s))
         = (if 15000 \<le> now - L
            then Some \<lparr>ti_side = BUY, ti_size = js_or_undef (cfg_buySize (pb_config s)) (Fin 1),
                       ti_price = None, ti_tokenId = nonEmpty (targetTokenId s)\<rparr>
            else None)"
    using assms
    by (simp_all add: PollBuy_evaluate_def Let_def js_or_undef_def js_or_def truthy_def)
qed

lemma PollBuy_results_length: "length (PollBuy_results ctx s ts) = length ts"
  by (induction ts arbitrary: s) auto

lemma PollBuy_results_snoc:
  "PollBuy_results ctx s (ts @ [now])
   = PollBuy_results ctx s ts @ [fst (PollBuy_evaluate now ctx (PollBuy_after ctx s ts))]"
  by (induction ts arbitrary: s) auto

lemma PollBuy_after_frame:
  "pb_config (PollBuy_after ctx s ts) = pb_config s"
  "targetTokenId (PollBuy_after ctx s ts) = targetTokenId s"
  by (induction ts arbitrary: s) (auto simp: PollBuy_evaluate_frame)

lemma previousFire_Cons:
  "length rs = length ts \<Longrightarrow>
   previousFire L (now # ts) (r # rs)
   = previousFire (if shouldExecute r then now else L) ts rs"
  by (simp add: previousFire_def)

lemma PollBuy_after_lastExecutionTime:
  assumes "cfg_enabled (pb_config s)" and "cfg_intervalSeconds (pb_config s) = Some (Fin 15)"
    and "lastExecutionTime s = Fin (of_int L)"
  shows "lastExecutionTime (PollBuy_after ctx s ts)
         = Fin (of_int (previousFire L ts (PollBuy_results ctx s ts)))"
  using assms
proof (induction ts arbitrary: s L)
  case Nil
  then show ?case by (simp add: previousFire_def)
next
  case (Cons now ts)
  let ?s1 = "snd (PollBuy_evaluate now ctx s)"
  let ?r = "fst (PollBuy_evaluate now ctx s)"
  let ?L1 = "if 15000 \<le> now - L then now else L"
  have f: "shouldExecute ?r = (15000 \<le> now - L)" and l: "lastExecutionTime ?s1 = Fin (of_int ?L1)"
    using PollBuy_evaluate_fires [OF Cons.prems] by auto
  have "lastExecutionTime (PollBuy_after ctx ?s1 ts)
        = Fin (of_int (previousFire ?L1 ts (PollBuy_results ctx ?s1 ts)))"
    using Cons.IH [of ?s1 ?L1] Cons.prems l by (simp add: PollBuy_evaluate_frame)
  moreover have "previousFire L (now # ts) (?r # PollBuy_results ctx ?s1 ts)
                 = previousFire ?L1 ts (PollBuy_results ctx ?s1 ts)"
    using previousFire_Cons [of "PollBuy_results ctx ?s1 ts" ts L now ?r] f
    by (simp add: PollBuy_results_length)
  ultimately show ?case by simp
qed

section \<open>Facts about the simulator\<close>













lemma executeTrade_context [simp]:
  "currentContext (executeTrade cls now tradeId name intent sim) = currentContext sim"
  "evaluationInterval (executeTrade cls now tradeId name intent sim) = evaluationInterval sim"
  by (simp_all add: executeTrade_def Let_def split: option.splits)

lemma evaluateOne_context [simp]:
  "currentContext (evaluateOne cls now newId ctx i sim) = currentContext sim"
  "evaluationInterval (evaluateOne cls now newId ctx i sim) = evaluationInterval sim"
  by (simp_all add: evaluateOne_def Let_def split: option.splits prod.splits)

lemma foldl_evaluateOne_context:
  "currentContext (foldl (\<lambda>s i. evaluateOne cls now newId ctx i s) sim is) = currentContext sim
   \<and> evaluationInterval (foldl (\<lambda>s i. evaluateOne cls now newId ctx i s) sim is)
       = evaluationInterval sim"
  by (induction "is" arbitrary: sim) simp_all

lemma evaluateStrategies_context [simp]:
  "currentContext (evaluateStrategies cls now newId sim) = currentContext sim"
  "evaluationInterval (evaluateStrategies cls now newId sim) = evaluationInterval sim"
  by (simp_all add: evaluateStrategies_def foldl_evaluateOne_context split: option.splits)

lemma evaluateStrategies_no_context:
  "currentContext sim = None \<Longrightarrow> evaluateStrategies cls now newId sim = sim"
  by (simp add: evaluateStrategies_def)

lemma strategies_newDashboard [simp]:
  "strategies (simulator (newDashboard tid mn oc ss)) = ss"
proof -
  have "strategies (foldl (\<lambda>sim s. addStrategy s sim) sim0 ss) = strategies sim0 @ ss"
    for sim0 :: "'a StrategySimulator"
    by (induction ss arbitrary: sim0) (simp_all add: addStrategy_def)
  then show ?thesis by (simp add: newDashboard_def newSimulator_def)
qed

lemma foldl_addStrategy_frame:
  "currentContext (foldl (\<lambda>sim s. addStrategy s sim) sim0 ss) = currentContext sim0
   \<and> evaluationInterval (foldl (\<lambda>sim s. addStrategy s sim) sim0 ss) = evaluationInterval sim0
   \<and> simulatedTrades (foldl (\<lambda>sim s. addStrategy s sim) sim0 ss) = simulatedTrades sim0
   \<and> sim_portfolio (foldl (\<lambda>sim s. addStrategy s sim) sim0 ss) = sim_portfolio sim0"
  by (induction ss arbitrary: sim0) (simp_all add: addStrategy_def)

lemma idle_newDashboard: "idle ss (newDashboard tid mn oc ss)"
  using foldl_addStrategy_frame [of "newSimulator :: 'a StrategySimulator" ss]
  by (simp add: idle_def) (simp add: newDashboard_def newSimulator_def newTracker_def)

lemma idle_step:
  "idle ss d \<Longrightarrow> \<not> bothSidesPopulated ev \<Longrightarrow> idle ss (handleEvent cls d ev)"
  by (cases ev)
     (auto simp: idle_def onFeedUpdate_def onTick_def updateMarket_def Let_def setPrice_def
        recalculateValue_frame)

lemma idle_start:
  "idle ss d \<Longrightarrow> bothSidesPopulated ev \<Longrightarrow> started (handleEvent cls d ev)"
  by (cases ev)
     (auto simp: idle_def started_def onFeedUpdate_def updateMarket_def Let_def start_def)

lemma started_step: "started d \<Longrightarrow> started (handleEvent cls d ev)"
  by (cases ev)
     (auto simp: started_def onFeedUpdate_def onTick_def updateMarket_def Let_def
        split: option.splits)

lemma started_run: "started d \<Longrightarrow> started (runDashboard cls d events)"
  unfolding runDashboard_def
  by (induction events arbitrary: d) (simp_all add: started_step)

lemma idle_run:
  "idle ss d \<Longrightarrow> list_all (\<lambda>ev. \<not> bothSidesPopulated ev) events \<Longrightarrow>
   idle ss (runDashboard cls d events)"
  unfolding runDashboard_def
  by (induction events arbitrary: d) (simp_all add: idle_step)

lemma run_started:
  "idle ss d \<Longrightarrow> \<not> list_all (\<lambda>ev. \<not> bothSidesPopulated ev) events \<Longrightarrow>
   started (runDashboard cls d events)"
proof (induction events arbitrary: d)
  case Nil
  then show ?case by simp
next
  case (Cons ev events)
  show ?case
  proof (cases "bothSidesPopulated ev")
    case True
    then have "started (handleEvent cls d ev)" using Cons.prems(1) by (simp add: idle_start)
    then have "started (runDashboard cls (handleEvent cls d ev) events)" by (rule started_run)
    then show ?thesis by (simp add: runDashboard_def)
  next
    case False
    then have "idle ss (handleEvent cls d ev)" using Cons.prems(1) by (simp add: idle_step)
    moreover have "\<not> list_all (\<lambda>ev. \<not> bothSidesPopulated ev) events"
      using Cons.prems(2) False by simp
    ultimately have "started (runDashboard cls (handleEvent cls d ev) events)"
      by (rule Cons.IH)
    then show ?thesis by (simp add: runDashboard_def)
  qed
qed

section \<open>The store and the values\<close>

lemma clientOf_handlers:
  "clientOf (handleBookMessage_s bm c) = handleBookMessage bm (clientOf c)"
  "clientOf (handleTradeMessage_s tm c) = handleTradeMessage tm (clientOf c)"
  "clientOf (handlePriceChange_s pm c) = handlePriceChange pm (clientOf c)"
  by (simp_all add: clientOf_def handleBookMessage_s_def handleBookMessage_def
      handleTradeMessage_s_def handleTradeMessage_def handlePriceChange_s_def
      handlePriceChange_def Let_def)

lemma clientOf_new: "clientOf (newClientStore tid) = newClient tid"
  by (simp add: clientOf_def newClientStore_def newClient_def)

lemma ledgerOf_new: "ledgerOf newLedgerStore = newTracker"
  by (simp add: ledgerOf_def newLedgerStore_def newTracker_def)

lemma map_of_deref:
  "map_of (map (\<lambda>(tid, a). (tid, f a)) ps) k = map_option f (map_of ps k)"
  by (induction ps) auto

lemma deref_update_inplace:
  "distinct (map snd ps) \<Longrightarrow> map_of ps k = Some a \<Longrightarrow>
   map (\<lambda>(tid, b). (tid, (f(a := v)) b)) ps
   = AList.update k v (map (\<lambda>(tid, b). (tid, f b)) ps)"
proof (induction ps)
  case Nil
  then show ?case by simp
next
  case (Cons x ps)
  obtain k' b where x: "x = (k', b)" by (cases x)
  show ?case
  proof (cases "k' = k")
    case True
    then have ba: "b = a" using Cons.prems x by simp
    then have "a \<notin> snd ` set ps" using Cons.prems x by simp
    then have "map (\<lambda>(tid, b). (tid, (f(a := v)) b)) ps = map (\<lambda>(tid, b). (tid, f b)) ps"
      by (intro map_cong) (auto simp: image_iff)
    then show ?thesis using True x ba by simp
  next
    case False
    then have m: "map_of ps k = Some a" using Cons.prems x by simp
    then have "a \<in> snd ` set ps" by (metis map_of_SomeD image_iff snd_conv)
    then have "b \<noteq> a" using Cons.prems x by auto
    then show ?thesis using False x m Cons by simp
  qed
qed

lemma deref_update_fresh:
  "list_all (\<lambda>(tid, b). b < (n::nat)) ps \<Longrightarrow>
   map (\<lambda>(tid, b). (tid, (f(n := v)) b)) (AList.update k n ps)
   = AList.update k v (map (\<lambda>(tid, b). (tid, f b)) ps)"
proof (induction ps)
  case Nil
  then show ?case by simp
next
  case (Cons x ps)
  obtain k' b where x: "x = (k', b)" by (cases x)
  then have bn: "b \<noteq> n" and rest: "list_all (\<lambda>(tid, b). b < n) ps"
    using Cons.prems by auto
  show ?case
  proof (cases "k' = k")
    case True
    have "map (\<lambda>(tid, b). (tid, (f(n := v)) b)) ps = map (\<lambda>(tid, b). (tid, f b)) ps"
      using rest by (intro map_cong) (auto simp: list_all_iff)
    then show ?thesis using True x by simp
  next
    case False
    then show ?thesis using x bn rest Cons.IH by simp
  qed
qed

lemma deref_delete_inplace:
  "distinct (map snd ps) \<Longrightarrow> map_of ps k = Some a \<Longrightarrow>
   map (\<lambda>(tid, b). (tid, (f(a := v)) b)) (AList.delete k ps)
   = AList.delete k (map (\<lambda>(tid, b). (tid, f b)) ps)"
proof (induction ps)
  case Nil
  then show ?case by simp
next
  case (Cons x ps)
  obtain k' b where x: "x = (k', b)" by (cases x)
  show ?case
  proof (cases "k' = k")
    case True
    then have ba: "b = a" using Cons.prems x by simp
    then have na: "a \<notin> snd ` set ps" using Cons.prems x by simp
    have "map (\<lambda>(tid, b). (tid, (f(a := v)) b)) (AList.delete k ps)
          = map (\<lambda>(tid, b). (tid, f b)) (AList.delete k ps)"
      using na by (intro map_cong) (auto simp: image_iff AList.delete_eq)
    also have "\<dots> = AList.delete k (map (\<lambda>(tid, b). (tid, f b)) ps)"
      by (induction ps) auto
    finally show ?thesis using True x by simp
  next
    case False
    then have m: "map_of ps k = Some a" using Cons.prems x by simp
    then have "a \<in> snd ` set ps" by (metis map_of_SomeD image_iff snd_conv)
    then have "b \<noteq> a" using Cons.prems x by auto
    then show ?thesis using False x m Cons by simp
  qed
qed

lemma update_absent_append: "map_of ps k = None \<Longrightarrow> AList.update k v ps = ps @ [(k, v)]"
  by (induction ps) (auto split: if_splits)

lemma ledgerOf_recalculateValue_s:
  "ledgerOf (recalculateValue_s st) = recalculateValue (ledgerOf st)"
proof -
  have "foldl (\<lambda>acc (tid, position). acc + g tid * shares position) z
          (map (\<lambda>(tid, a). (tid, objects st a)) ps)
        = foldl (\<lambda>acc (tid, a). acc + g tid * shares (objects st a)) z ps" for g z ps
    by (induction ps arbitrary: z) auto
  from this [of "\<lambda>tid. js_or_undef (map_of (s_currentPrices st) tid) (Fin 0)" "Fin 0"
      "s_positions st"]
  show ?thesis
    by (simp add: ledgerOf_def recalculateValue_s_def recalculateValue_def Let_def)
qed

lemma storeOK_recalculateValue_s: "storeOK (recalculateValue_s st) = storeOK st"
  by (simp add: storeOK_def recalculateValue_s_def Let_def)

lemma ledgerOf_postFill_s:
  assumes ok: "storeOK st"
  shows "ledgerOf (postFill_s tid oc side price sz ts st) = postFill tid oc side price sz ts (ledgerOf st)"
proof -
  have d: "distinct (map snd (s_positions st))"
    and b: "list_all (\<lambda>(tid, a). a < nextAddr st) (s_positions st)"
    using ok by (simp_all add: storeOK_def)
  show ?thesis
  proof (cases "map_of (s_positions st) tid")
    case None
    then show ?thesis
      using deref_update_fresh [OF b, of "objects st"]
      by (cases side) (simp_all add: ledgerOf_def postFill_s_def postFill_def Let_def map_of_deref)
  next
    case (Some a)
    show ?thesis
    proof (cases side)
      case BUY
      then show ?thesis
        using Some deref_update_inplace [OF d Some, of "objects st"]
        by (simp add: ledgerOf_def postFill_s_def postFill_def Let_def map_of_deref)
    next
      case SELL
      then show ?thesis
        using Some deref_update_inplace [OF d Some, of "objects st"]
          deref_delete_inplace [OF d Some, of "objects st"]
        by (simp add: ledgerOf_def postFill_s_def postFill_def Let_def map_of_deref)
    qed
  qed
qed

lemma storeOK_postFill_s:
  assumes ok: "storeOK st"
  shows "storeOK (postFill_s tid oc side price sz ts st)"
proof -
  have d: "distinct (map snd (s_positions st))"
    and b: "list_all (\<lambda>(tid, a). a < nextAddr st) (s_positions st)"
    using ok by (simp_all add: storeOK_def)
  have fresh: "nextAddr st \<notin> snd ` set (s_positions st)"
    using b by (auto simp: list_all_iff)
  have b': "list_all (\<lambda>(tid, a). a < Suc (nextAddr st)) (s_positions st)"
    using b by (auto simp: list_all_iff)
  have dd: "distinct (map snd (AList.delete tid (s_positions st)))"
    using d by (simp add: AList.delete_eq distinct_map_filter)
  have bd: "list_all (\<lambda>(tid, a). a < nextAddr st) (AList.delete tid (s_positions st))"
    using b by (auto simp: AList.delete_eq list_all_iff)
  show ?thesis
  proof (cases "map_of (s_positions st) tid")
    case None
    then show ?thesis
      using ok d fresh b'
      by (cases side) (simp_all add: storeOK_def postFill_s_def Let_def update_absent_append)
  next
    case (Some a)
    then show ?thesis
      using ok dd bd
      by (cases side) (simp_all add: storeOK_def postFill_s_def Let_def)
  qed
qed

lemma ledgerOf_addTrade_s:
  "storeOK st \<Longrightarrow>
   ledgerOf (addTrade_s tid oc side price sz ts st) = addTrade tid oc side price sz ts (ledgerOf st)
   \<and> storeOK (addTrade_s tid oc side price sz ts st)"
  by (simp add: addTrade_s_def addTrade_def ledgerOf_recalculateValue_s ledgerOf_postFill_s
      storeOK_recalculateValue_s storeOK_postFill_s)

lemma storeOK_new: "storeOK newLedgerStore"
  by (simp add: storeOK_def newLedgerStore_def)

lemma getSnapshot_s_ledgerOf:
  "getSnapshot now (ledgerOf st)
   = \<lparr>snap_positions = snapshotPositions st (getSnapshot_s now st),
      snap_totalCost = r_totalCost (getSnapshot_s now st),
      snap_currentValue = r_currentValue (getSnapshot_s now st),
      snap_unrealizedPnL = r_unrealizedPnL (getSnapshot_s now st),
      snap_realizedPnL = r_realizedPnL (getSnapshot_s now st),
      snap_timestamp = r_timestamp (getSnapshot_s now st)\<rparr>"
  by (simp add: getSnapshot_def getSnapshot_s_def ledgerOf_def snapshotPositions_def
      case_prod_beta comp_def)

section \<open>Trades of other instruments enter the trade buffer\<close>

text \<open>
  C10.  Every last-trade message puts a trade built from the message at the front of the
  trade buffer, which keeps its 100 newest entries, whatever the asset id of the message
  is: the handler never reads the asset id, so a message for another instrument than the
  subscribed one enters the buffer like any other.  A book snapshot or a price change
  for another instrument, in contrast, is skipped.
\<close>

theorem trade_message_not_filtered:
  "trades (handleTradeMessage message c) = take 100 (mkTrade message # trades c)
   \<and> hd (trades (handleTradeMessage message c)) = mkTrade message
   \<and> length (trades (handleTradeMessage message c)) = min 100 (Suc (length (trades c)))
   \<and> handleTradeMessage (message\<lparr>lt_asset_id := other\<rparr>) c = handleTradeMessage message c
   \<and> (bm_asset_id bm \<noteq> tokenId c \<longrightarrow> handleBookMessage bm c = c)
   \<and> (pc_asset_id change \<noteq> tokenId c \<longrightarrow> applyChange (tokenId c) change ob = ob)"
  by (simp add: handleTradeMessage_def mkTrade_def Let_def handleBookMessage_def
      applyChange_def)

theorem trade_message_not_filtered_witness:
  "lt_asset_id \<lparr>lt_asset_id = ''222'', lt_price = ''0.5'', lt_side = SELL, lt_size = ''4'',
                 lt_timestamp = ''17''\<rparr> \<noteq> tokenId (newClient ''111'')
   \<and> trades (handleTradeMessage
        \<lparr>lt_asset_id = ''222'', lt_price = ''0.5'', lt_side = SELL, lt_size = ''4'',
         lt_timestamp = ''17''\<rparr> (newClient ''111''))
     = [\<lparr>t_timestamp = Fin 17, t_side = SELL, t_price = Fin (1 / 2), t_size = Fin 4,
         t_notional = Fin 2\<rparr>]
   \<and> bm_asset_id \<lparr>bm_asset_id = ''222'', bm_bids = Some [\<lparr>os_price = ''0.5'', os_size = ''4''\<rparr>],
                   bm_asks = Some [], bm_buys = None,
      bm_sells = None, bm_timestamp = ''17''\<rparr> \<noteq> tokenId (newClient ''111'')
   \<and> handleBookMessage
        \<lparr>bm_asset_id = ''222'', bm_bids = Some [\<lparr>os_price = ''0.5'', os_size = ''4''\<rparr>],
         bm_asks = Some [], bm_buys = None,
      bm_sells = None, bm_timestamp = ''17''\<rparr> (newClient ''111'') = newClient ''111''
   \<and> pc_asset_id \<lparr>pc_asset_id = ''222'', pc_price = ''0.5'', pc_size = ''4'', pc_side = BUY\<rparr>
       \<noteq> tokenId (newClient ''111'')
   \<and> applyChange (tokenId (newClient ''111''))
        \<lparr>pc_asset_id = ''222'', pc_price = ''0.5'', pc_size = ''4'', pc_side = BUY\<rparr>
        (orderBook (newClient ''111'')) = orderBook (newClient ''111'')"
proof -
  have a: "lt_asset_id \<lparr>lt_asset_id = ''222'', lt_price = ''0.5'', lt_side = SELL,
             lt_size = ''4'', lt_timestamp = ''17''\<rparr> \<noteq> tokenId (newClient ''111'')"
    by (simp add: newClient_def)
  have b: "bm_asset_id \<lparr>bm_asset_id = ''222'',
             bm_bids = Some [\<lparr>os_price = ''0.5'', os_size = ''4''\<rparr>],
             bm_asks = Some [], bm_buys = None,
      bm_sells = None, bm_timestamp = ''17''\<rparr> \<noteq> tokenId (newClient ''111'')"
    by (simp add: newClient_def)
  have c: "pc_asset_id \<lparr>pc_asset_id = ''222'', pc_price = ''0.5'', pc_size = ''4'',
             pc_side = BUY\<rparr> \<noteq> tokenId (newClient ''111'')"
    by (simp add: newClient_def)
  have m: "mkTrade \<lparr>lt_asset_id = ''222'', lt_price = ''0.5'', lt_side = SELL,
             lt_size = ''4'', lt_timestamp = ''17''\<rparr>
           = \<lparr>t_timestamp = Fin 17, t_side = SELL, t_price = Fin (1 / 2), t_size = Fin 4,
              t_notional = Fin 2\<rparr>"
    by code_simp
  have t: "trades (newClient ''111'') = []"
    by (simp add: newClient_def)
  from trade_message_not_filtered
         [of "\<lparr>lt_asset_id = ''222'', lt_price = ''0.5'', lt_side = SELL, lt_size = ''4'',
               lt_timestamp = ''17''\<rparr>" "newClient ''111''" "''222''"
             "\<lparr>bm_asset_id = ''222'', bm_bids = Some [\<lparr>os_price = ''0.5'', os_size = ''4''\<rparr>],
               bm_asks = Some [], bm_buys = None,
      bm_sells = None, bm_timestamp = ''17''\<rparr>"
             "\<lparr>pc_asset_id = ''222'', pc_price = ''0.5'', pc_size = ''4'', pc_side = BUY\<rparr>"
             "orderBook (newClient ''111'')"]
  show ?thesis using a b c by (simp add: m t)
qed

section \<open>Book snapshots\<close>

text \<open>
  C6, as stated, fails: a snapshot is parsed and sorted, and nothing merges or removes
  levels that share a price.  A snapshot for the subscribed instrument with two bids at
  0.5 leaves both in the book, so the bids are not strictly descending.
\<close>

theorem snapshot_duplicate_price_counterexample:
  "bm_asset_id \<lparr>bm_asset_id = ''111'',
      bm_bids = Some [\<lparr>os_price = ''0.5'', os_size = ''1''\<rparr>, \<lparr>os_price = ''0.5'', os_size = ''2''\<rparr>],
      bm_asks = Some [\<lparr>os_price = ''0.6'', os_size = ''3''\<rparr>], bm_buys = None,
      bm_sells = None, bm_timestamp = ''17''\<rparr>
     = tokenId (newClient ''111'')
   \<and> bids (orderBook (handleBookMessage
        \<lparr>bm_asset_id = ''111'',
         bm_bids = Some [\<lparr>os_price = ''0.5'', os_size = ''1''\<rparr>, \<lparr>os_price = ''0.5'', os_size = ''2''\<rparr>],
         bm_asks = Some [\<lparr>os_price = ''0.6'', os_size = ''3''\<rparr>], bm_buys = None,
      bm_sells = None, bm_timestamp = ''17''\<rparr>
        (newClient ''111'')))
     = [\<lparr>l_price = Fin (1 / 2), l_size = Fin 1\<rparr>, \<lparr>l_price = Fin (1 / 2), l_size = Fin 2\<rparr>]
   \<and> \<not> strictlyDescending
        [\<lparr>l_price = Fin (1 / 2), l_size = Fin 1\<rparr>, \<lparr>l_price = Fin (1 / 2), l_size = Fin 2\<rparr>]"
  by code_simp

text \<open>
  C6, amended.  For a snapshot of the subscribed instrument whose prices all parse to a
  number (not NaN), the bids of the resulting book are sorted descending and the asks
  ascending, both non-strictly; each side holds exactly the parsed levels of the message,
  levels that share a price included.  A side is strictly sorted, with no two levels
  sharing a price, exactly when the prices of that side of the message are pairwise
  distinct.
\<close>

theorem snapshot_sorted:
  assumes own: "bm_asset_id message = tokenId c"
    and nb: "numericPrices (map parseLevel (bidData message))"
    and na: "numericPrices (map parseLevel (askData message))"
  shows "descending (bids (orderBook (handleBookMessage message c)))
       \<and> ascending (asks (orderBook (handleBookMessage message c)))
       \<and> mset (bids (orderBook (handleBookMessage message c)))
           = mset (map parseLevel (bidData message))
       \<and> mset (asks (orderBook (handleBookMessage message c)))
           = mset (map parseLevel (askData message))
       \<and> strictlyDescending (bids (orderBook (handleBookMessage message c)))
           = distinct (map (l_price \<circ> parseLevel) (bidData message))
       \<and> strictlyAscending (asks (orderBook (handleBookMessage message c)))
           = distinct (map (l_price \<circ> parseLevel) (askData message))"
proof -
  have b: "bids (orderBook (handleBookMessage message c))
             = js_sort cmpDesc (map parseLevel (bidData message))"
    and a: "asks (orderBook (handleBookMessage message c))
             = js_sort cmpAsc (map parseLevel (askData message))"
    using own by (simp_all add: handleBookMessage_def)
  have d: "descending (js_sort cmpDesc (map parseLevel (bidData message)))"
    using nb by (rule descending_js_sort)
  have u: "ascending (js_sort cmpAsc (map parseLevel (askData message)))"
    using na by (rule ascending_js_sort)
  show ?thesis
    unfolding a b strictlyDescending_iff strictlyAscending_iff distinct_prices_js_sort
    using d u by (simp add: mset_js_sort)
qed

theorem snapshot_sorted_witness:
  "bm_asset_id \<lparr>bm_asset_id = ''111'',
      bm_bids = Some [\<lparr>os_price = ''0.4'', os_size = ''1''\<rparr>, \<lparr>os_price = ''0.5'', os_size = ''2''\<rparr>],
      bm_asks = Some [\<lparr>os_price = ''0.7'', os_size = ''3''\<rparr>, \<lparr>os_price = ''0.6'', os_size = ''4''\<rparr>], bm_buys = None,
      bm_sells = None,
      bm_timestamp = ''17''\<rparr> = tokenId (newClient ''111'')
   \<and> numericPrices (map parseLevel
        [\<lparr>os_price = ''0.4'', os_size = ''1''\<rparr>, \<lparr>os_price = ''0.5'', os_size = ''2''\<rparr>])
   \<and> numericPrices (map parseLevel
        [\<lparr>os_price = ''0.7'', os_size = ''3''\<rparr>, \<lparr>os_price = ''0.6'', os_size = ''4''\<rparr>])
   \<and> strictlyDescending (bids (orderBook (handleBookMessage
        \<lparr>bm_asset_id = ''111'',
         bm_bids = Some [\<lparr>os_price = ''0.4'', os_size = ''1''\<rparr>, \<lparr>os_price = ''0.5'', os_size = ''2''\<rparr>],
         bm_asks = Some [\<lparr>os_price = ''0.7'', os_size = ''3''\<rparr>, \<lparr>os_price = ''0.6'', os_size = ''4''\<rparr>], bm_buys = None,
      bm_sells = None,
         bm_timestamp = ''17''\<rparr> (newClient ''111''))))
   \<and> strictlyAscending (asks (orderBook (handleBookMessage
        \<lparr>bm_asset_id = ''111'',
         bm_bids = Some [\<lparr>os_price = ''0.4'', os_size = ''1''\<rparr>, \<lparr>os_price = ''0.5'', os_size = ''2''\<rparr>],
         bm_asks = Some [\<lparr>os_price = ''0.7'', os_size = ''3''\<rparr>, \<lparr>os_price = ''0.6'', os_size = ''4''\<rparr>], bm_buys = None,
      bm_sells = None,
         bm_timestamp = ''17''\<rparr> (newClient ''111''))))"
proof -
  have own: "bm_asset_id \<lparr>bm_asset_id = ''111'',
      bm_bids = Some [\<lparr>os_price = ''0.4'', os_size = ''1''\<rparr>, \<lparr>os_price = ''0.5'', os_size = ''2''\<rparr>],
      bm_asks = Some [\<lparr>os_price = ''0.7'', os_size = ''3''\<rparr>, \<lparr>os_price = ''0.6'', os_size = ''4''\<rparr>], bm_buys = None,
      bm_sells = None,
      bm_timestamp = ''17''\<rparr> = tokenId (newClient ''111'')"
    by (simp add: newClient_def)
  have pb: "map parseLevel
        [\<lparr>os_price = ''0.4'', os_size = ''1''\<rparr>, \<lparr>os_price = ''0.5'', os_size = ''2''\<rparr>]
      = [\<lparr>l_price = Fin (2 / 5), l_size = Fin 1\<rparr>, \<lparr>l_price = Fin (1 / 2), l_size = Fin 2\<rparr>]"
    by code_simp
  have pa: "map parseLevel
        [\<lparr>os_price = ''0.7'', os_size = ''3''\<rparr>, \<lparr>os_price = ''0.6'', os_size = ''4''\<rparr>]
      = [\<lparr>l_price = Fin (7 / 10), l_size = Fin 3\<rparr>, \<lparr>l_price = Fin (3 / 5), l_size = Fin 4\<rparr>]"
    by code_simp
  have nb: "numericPrices (map parseLevel
        [\<lparr>os_price = ''0.4'', os_size = ''1''\<rparr>, \<lparr>os_price = ''0.5'', os_size = ''2''\<rparr>])"
    unfolding pb by (simp add: numericPrices_def)
  have na: "numericPrices (map parseLevel
        [\<lparr>os_price = ''0.7'', os_size = ''3''\<rparr>, \<lparr>os_price = ''0.6'', os_size = ''4''\<rparr>])"
    unfolding pa by (simp add: numericPrices_def)
  have db: "distinct (map (l_price \<circ> parseLevel)
        [\<lparr>os_price = ''0.4'', os_size = ''1''\<rparr>, \<lparr>os_price = ''0.5'', os_size = ''2''\<rparr>])"
    using pb by simp
  have da: "distinct (map (l_price \<circ> parseLevel)
        [\<lparr>os_price = ''0.7'', os_size = ''3''\<rparr>, \<lparr>os_price = ''0.6'', os_size = ''4''\<rparr>])"
    using pa by simp
  from snapshot_sorted [of "\<lparr>bm_asset_id = ''111'',
      bm_bids = Some [\<lparr>os_price = ''0.4'', os_size = ''1''\<rparr>, \<lparr>os_price = ''0.5'', os_size = ''2''\<rparr>],
      bm_asks = Some [\<lparr>os_price = ''0.7'', os_size = ''3''\<rparr>, \<lparr>os_price = ''0.6'', os_size = ''4''\<rparr>], bm_buys = None,
      bm_sells = None,
      bm_timestamp = ''17''\<rparr>" "newClient ''111''"] own nb na db da
  show ?thesis by (simp add: bidData_def askData_def)
qed

section \<open>Malformed numerals\<close>

text \<open>
  C7, as stated, fails: no handler checks what \<open>parseFloat\<close> returns.  A snapshot with
  the bid \<open>("abc", "10")\<close> puts a level with price NaN and size 10 in the book, and a
  price change whose size is the text \<open>1O\<close> (digit one, letter O) is read as size 1 by
  its numeric prefix; neither level is discarded.
\<close>

theorem malformed_level_kept_counterexample:
  "bm_asset_id \<lparr>bm_asset_id = ''111'', bm_bids = Some [\<lparr>os_price = ''abc'', os_size = ''10''\<rparr>],
      bm_asks = Some [], bm_buys = None,
      bm_sells = None, bm_timestamp = ''17''\<rparr> = tokenId (newClient ''111'')
   \<and> parseFloat ''abc'' = NaN
   \<and> bids (orderBook (handleBookMessage
        \<lparr>bm_asset_id = ''111'', bm_bids = Some [\<lparr>os_price = ''abc'', os_size = ''10''\<rparr>],
         bm_asks = Some [], bm_buys = None,
      bm_sells = None, bm_timestamp = ''17''\<rparr> (newClient ''111'')))
     = [\<lparr>l_price = NaN, l_size = Fin 10\<rparr>]
   \<and> bids (orderBook (handlePriceChange
        \<lparr>pcm_price_changes =
           [\<lparr>pc_asset_id = ''111'', pc_price = ''0.5'', pc_size = ''1O'', pc_side = BUY\<rparr>],
         pcm_timestamp = ''18''\<rparr> (newClient ''111'')))
     = [\<lparr>l_price = Fin (1 / 2), l_size = Fin 1\<rparr>]"
  by code_simp

text \<open>
  C7, amended.  A level whose price or size text has no numeric prefix is not discarded:
  the field is NaN and the level is stored with it.  A snapshot of the subscribed
  instrument stores every level of the message, malformed or not (each side of the book is
  a permutation of the parsed side of the message), and sets \<open>lastUpdate\<close>.  A price
  change of the subscribed instrument whose price or size is NaN, and whose size is not
  0, leaves a level with exactly the parsed price and size on its side of the book.
  No handler has a failing branch: the update is always applied.
\<close>

theorem malformed_level_kept:
  "(bm_asset_id message = tokenId c \<longrightarrow>
      mset (bids (orderBook (handleBookMessage message c)))
        = mset (map parseLevel (bidData message))
      \<and> mset (asks (orderBook (handleBookMessage message c)))
        = mset (map parseLevel (askData message))
      \<and> lastUpdate (orderBook (handleBookMessage message c))
        = parseInt (bm_timestamp message))
   \<and> (pc_asset_id change = tid
       \<and> (parseFloat (pc_price change) = NaN \<or> parseFloat (pc_size change) = NaN)
       \<and> \<not> js_eq (parseFloat (pc_size change)) (Fin 0) \<longrightarrow>
      \<lparr>l_price = parseFloat (pc_price change), l_size = parseFloat (pc_size change)\<rparr>
        \<in> set (sideLevels (pc_side change) (applyChange tid change ob)))"
proof -
  have snap: "bm_asset_id message = tokenId c \<Longrightarrow>
      mset (bids (orderBook (handleBookMessage message c)))
        = mset (map parseLevel (bidData message))
      \<and> mset (asks (orderBook (handleBookMessage message c)))
        = mset (map parseLevel (askData message))
      \<and> lastUpdate (orderBook (handleBookMessage message c))
        = parseInt (bm_timestamp message)"
    by (simp add: handleBookMessage_def mset_js_sort)
  have delta: "\<lparr>l_price = p, l_size = s\<rparr> \<in> set (updateLevel levels p s isBid)"
    if "p = NaN \<or> s = NaN" and nz: "\<not> js_eq s (Fin 0)" for p s levels isBid
  proof (cases "findIndex (\<lambda>l. js_eq (l_price l) p) levels")
    case None
    then show ?thesis using nz by (simp add: updateLevel_def Let_def set_js_sort)
  next
    case (Some i)
    then have "i < length levels" and "js_eq (l_price (levels ! i)) p"
      using findIndex_Some [of "\<lambda>l. js_eq (l_price l) p" levels i] by auto
    then have "i < length levels" and "(levels ! i)\<lparr>l_size := s\<rparr> = \<lparr>l_price = p, l_size = s\<rparr>"
      by (auto simp: js_eq_def)
    then have "\<lparr>l_price = p, l_size = s\<rparr> \<in> set (levels[i := (levels ! i)\<lparr>l_size := s\<rparr>])"
      by (metis set_update_memI length_list_update)
    then show ?thesis using nz Some by (simp add: updateLevel_def Let_def set_js_sort)
  qed
  show ?thesis
    using snap delta [of "parseFloat (pc_price change)" "parseFloat (pc_size change)"]
    by (auto simp: sideLevels_applyChange)
qed

theorem malformed_level_kept_witness:
  "bm_asset_id \<lparr>bm_asset_id = ''111'',
      bm_bids = Some [\<lparr>os_price = ''0.5'', os_size = ''x''\<rparr>], bm_asks = Some [], bm_buys = None,
      bm_sells = None,
      bm_timestamp = ''17''\<rparr> = tokenId (newClient ''111'')
   \<and> mset (bids (orderBook (handleBookMessage \<lparr>bm_asset_id = ''111'',
        bm_bids = Some [\<lparr>os_price = ''0.5'', os_size = ''x''\<rparr>], bm_asks = Some [], bm_buys = None,
      bm_sells = None,
        bm_timestamp = ''17''\<rparr> (newClient ''111''))))
     = {#\<lparr>l_price = Fin (1 / 2), l_size = NaN\<rparr>#}
   \<and> parseFloat (pc_price \<lparr>pc_asset_id = ''111'', pc_price = ''?'', pc_size = ''3'',
         pc_side = SELL\<rparr>) = NaN
   \<and> \<not> js_eq (parseFloat (pc_size \<lparr>pc_asset_id = ''111'', pc_price = ''?'', pc_size = ''3'',
         pc_side = SELL\<rparr>)) (Fin 0)
   \<and> \<lparr>l_price = NaN, l_size = Fin 3\<rparr>
       \<in> set (asks (applyChange ''111''
            \<lparr>pc_asset_id = ''111'', pc_price = ''?'', pc_size = ''3'', pc_side = SELL\<rparr>
            (orderBook (newClient ''111''))))"
proof -
  let ?m = "\<lparr>bm_asset_id = ''111'',
      bm_bids = Some [\<lparr>os_price = ''0.5'', os_size = ''x''\<rparr>], bm_asks = Some [], bm_buys = None,
      bm_sells = None,
      bm_timestamp = ''17''\<rparr>"
  let ?ch = "\<lparr>pc_asset_id = ''111'', pc_price = ''?'', pc_size = ''3'', pc_side = SELL\<rparr>"
  have own: "bm_asset_id ?m = tokenId (newClient ''111'')"
    by (simp add: newClient_def)
  have pl: "parseLevel \<lparr>os_price = ''0.5'', os_size = ''x''\<rparr>
            = \<lparr>l_price = Fin (1 / 2), l_size = NaN\<rparr>"
    by code_simp
  have pp: "parseFloat ''?'' = NaN" by code_simp
  have ps: "parseFloat ''3'' = Fin 3" by code_simp
  have nz: "\<not> js_eq (Fin 3) (Fin 0)" by (simp add: js_eq_def)
  have bad: "pc_asset_id ?ch = ''111''
       \<and> (parseFloat (pc_price ?ch) = NaN \<or> parseFloat (pc_size ?ch) = NaN)
       \<and> \<not> js_eq (parseFloat (pc_size ?ch)) (Fin 0)"
    using nz by (simp add: pp ps)
  note t = malformed_level_kept [of ?m "newClient ''111''" ?ch "''111''"
      "orderBook (newClient ''111'')"]
  from t [THEN conjunct1, rule_format, OF own, THEN conjunct1]
  have a: "mset (bids (orderBook (handleBookMessage ?m (newClient ''111''))))
           = {#\<lparr>l_price = Fin (1 / 2), l_size = NaN\<rparr>#}"
    by (simp add: pl bidData_def)
  from t [THEN conjunct2, rule_format, OF bad]
  have b: "\<lparr>l_price = NaN, l_size = Fin 3\<rparr>
       \<in> set (asks (applyChange ''111'' ?ch (orderBook (newClient ''111''))))"
    by (simp add: pp ps sideLevels_def)
  show ?thesis using own a b nz by (simp add: pp ps)
qed

section \<open>Price-change deltas\<close>

text \<open>
  C5, as stated, fails for a price change whose price text is not a number.  The price is
  then NaN, which \<open>===\<close> never finds on the side, so the change adds a level with price
  NaN: the side, sorted before, is not sorted afterwards (NaN compares false with every
  price, wherever the sort puts the level), and a second such change adds a second level
  with price NaN instead of overwriting the first.
\<close>

theorem price_change_nan_counterexample:
  "pc_asset_id \<lparr>pc_asset_id = ''111'', pc_price = ''abc'', pc_size = ''3'', pc_side = BUY\<rparr> = ''111''
   \<and> sideSorted BUY [\<lparr>l_price = Fin (1 / 2), l_size = Fin 1\<rparr>, \<lparr>l_price = Fin (1 / 4), l_size = Fin 2\<rparr>]
   \<and> \<not> descending (bids (applyChange ''111''
        \<lparr>pc_asset_id = ''111'', pc_price = ''abc'', pc_size = ''3'', pc_side = BUY\<rparr>
        \<lparr>bids = [\<lparr>l_price = Fin (1 / 2), l_size = Fin 1\<rparr>, \<lparr>l_price = Fin (1 / 4), l_size = Fin 2\<rparr>],
         asks = [], lastUpdate = Fin 0\<rparr>))
   \<and> mset (bids (applyChange ''111''
        \<lparr>pc_asset_id = ''111'', pc_price = ''abc'', pc_size = ''4'', pc_side = BUY\<rparr>
        (applyChange ''111''
          \<lparr>pc_asset_id = ''111'', pc_price = ''abc'', pc_size = ''3'', pc_side = BUY\<rparr>
          \<lparr>bids = [\<lparr>l_price = Fin (1 / 2), l_size = Fin 1\<rparr>, \<lparr>l_price = Fin (1 / 4), l_size = Fin 2\<rparr>],
           asks = [], lastUpdate = Fin 0\<rparr>)))
     = {#\<lparr>l_price = Fin (1 / 2), l_size = Fin 1\<rparr>, \<lparr>l_price = Fin (1 / 4), l_size = Fin 2\<rparr>,
         \<lparr>l_price = NaN, l_size = Fin 3\<rparr>, \<lparr>l_price = NaN, l_size = Fin 4\<rparr>#}"
  by code_simp

text \<open>
  C5, amended.  Let a price change be for the subscribed instrument, with a price that
  parses to \<open>p\<close> and a size that parses to \<open>s\<close>.  If \<open>p\<close> is a number (not NaN) and the
  side of the change is sorted (descending for bids, ascending for asks, no price NaN;
  equal prices may occur, as they do after a snapshot that lists a price twice) then: when
  a level at price \<open>p\<close> exists and \<open>s = 0\<close>, the side afterwards is the side without the
  first such level; when it exists and \<open>s > 0\<close>, the side afterwards is the same list with
  the size of the first such level replaced, so the prices of the side are the same list
  as before and no level is added; when no level is at \<open>p\<close> and \<open>s > 0\<close>, the side
  afterwards holds the old levels and the new one; in every case the side is sorted again,
  which fixes the position of a new level, and a side without equal prices stays without
  equal prices (on such a side, removing the first level at \<open>p\<close> removes every level at
  \<open>p\<close>).  If \<open>p\<close> is NaN and \<open>s\<close> is not 0, the side afterwards holds the old levels and
  a new level with price NaN, and is not sorted.  A change for another instrument leaves
  the book as it was.  For a whole message, the sides of the book are what the changes of
  the message give one after the other, and the time stamp of the message is stored as
  \<open>lastUpdate\<close> in any case: a message whose changes are all for other instruments
  leaves the levels as they were and still sets \<open>lastUpdate\<close>.
\<close>

theorem price_change_delta:
  assumes lv: "levels = sideLevels (pc_side change) ob"
    and af: "after = sideLevels (pc_side change) (applyChange tid change ob)"
    and p: "p = parseFloat (pc_price change)"
    and s: "s = parseFloat (pc_size change)"
  shows "(pc_asset_id change = tid \<and> sideSorted (pc_side change) levels \<and> p \<noteq> NaN
          \<and> (\<exists>l \<in> set levels. l_price l = p) \<and> s = Fin 0 \<longrightarrow>
            after = removeFirst p levels)
       \<and> (pc_asset_id change = tid \<and> sideSorted (pc_side change) levels \<and> p \<noteq> NaN
          \<and> (\<exists>l \<in> set levels. l_price l = p) \<and> Fin 0 < s \<longrightarrow>
            after = resizeFirst p s levels \<and> map l_price after = map l_price levels)
       \<and> (pc_asset_id change = tid \<and> p \<noteq> NaN
          \<and> (\<forall>l \<in> set levels. l_price l \<noteq> p) \<and> Fin 0 < s \<longrightarrow>
            mset after = add_mset \<lparr>l_price = p, l_size = s\<rparr> (mset levels))
       \<and> (pc_asset_id change = tid \<and> sideSorted (pc_side change) levels \<and> p \<noteq> NaN \<longrightarrow>
            sideSorted (pc_side change) after
            \<and> (distinct (map l_price levels) \<longrightarrow> distinct (map l_price after)))
       \<and> (distinct (map l_price levels) \<longrightarrow>
            removeFirst p levels = filter (\<lambda>l. l_price l \<noteq> p) levels)
       \<and> (pc_asset_id change = tid \<and> p = NaN \<and> \<not> js_eq s (Fin 0) \<longrightarrow>
            mset after = add_mset \<lparr>l_price = NaN, l_size = s\<rparr> (mset levels)
            \<and> \<not> sideSorted (pc_side change) after)
       \<and> (pc_asset_id change \<noteq> tid \<longrightarrow> applyChange tid change ob = ob)
       \<and> bids (orderBook (handlePriceChange m c))
           = bids (foldl (\<lambda>ob change. applyChange (tokenId c) change ob) (orderBook c)
                    (pcm_price_changes m))
       \<and> asks (orderBook (handlePriceChange m c))
           = asks (foldl (\<lambda>ob change. applyChange (tokenId c) change ob) (orderBook c)
                    (pcm_price_changes m))
       \<and> lastUpdate (orderBook (handlePriceChange m c)) = parseInt (pcm_timestamp m)
       \<and> ((\<forall>ch \<in> set (pcm_price_changes m). pc_asset_id ch \<noteq> tokenId c) \<longrightarrow>
            bids (orderBook (handlePriceChange m c)) = bids (orderBook c)
            \<and> asks (orderBook (handlePriceChange m c)) = asks (orderBook c))"
proof -
  have pos: "Fin 0 < s \<Longrightarrow> \<not> js_eq s (Fin 0)"
    by (cases s) (auto simp: js_eq_def)
  have a: "pc_asset_id change = tid \<Longrightarrow> after = updateLevel levels p s (pc_side change = BUY)"
    unfolding af lv p s by (rule sideLevels_applyChange)
  have c1: "pc_asset_id change = tid \<and> sideSorted (pc_side change) levels \<and> p \<noteq> NaN
          \<and> (\<exists>l \<in> set levels. l_price l = p) \<and> s = Fin 0 \<longrightarrow>
            after = removeFirst p levels"
    using a updateLevel_removeFirst [of "pc_side change" levels p] by simp
  have c2: "pc_asset_id change = tid \<and> sideSorted (pc_side change) levels \<and> p \<noteq> NaN
          \<and> (\<exists>l \<in> set levels. l_price l = p) \<and> Fin 0 < s \<longrightarrow>
            after = resizeFirst p s levels \<and> map l_price after = map l_price levels"
    using a updateLevel_resizeFirst [of "pc_side change" levels p s] pos
    by (simp add: prices_resizeFirst)
  have c3: "pc_asset_id change = tid \<and> p \<noteq> NaN
          \<and> (\<forall>l \<in> set levels. l_price l \<noteq> p) \<and> Fin 0 < s \<longrightarrow>
            mset after = add_mset \<lparr>l_price = p, l_size = s\<rparr> (mset levels)"
    using a updateLevel_insert [of p levels s "pc_side change = BUY"] pos by simp
  have c4: "pc_asset_id change = tid \<and> sideSorted (pc_side change) levels \<and> p \<noteq> NaN \<longrightarrow>
            sideSorted (pc_side change) after
            \<and> (distinct (map l_price levels) \<longrightarrow> distinct (map l_price after))"
    using a updateLevel_sideSorted [of "pc_side change" levels p s] by simp
  have c5: "distinct (map l_price levels) \<longrightarrow>
            removeFirst p levels = filter (\<lambda>l. l_price l \<noteq> p) levels"
    using removeFirst_filter [of levels p] by simp
  have c6: "pc_asset_id change = tid \<and> p = NaN \<and> \<not> js_eq s (Fin 0) \<longrightarrow>
            mset after = add_mset \<lparr>l_price = NaN, l_size = s\<rparr> (mset levels)
            \<and> \<not> sideSorted (pc_side change) after"
  proof (intro impI conjI)
    assume h: "pc_asset_id change = tid \<and> p = NaN \<and> \<not> js_eq s (Fin 0)"
    then show m: "mset after = add_mset \<lparr>l_price = NaN, l_size = s\<rparr> (mset levels)"
      using a updateLevel_NaN [of s levels "pc_side change = BUY"] by simp
    have "\<lparr>l_price = NaN, l_size = s\<rparr> \<in> set after"
      using m by (metis union_single_eq_member set_mset_mset)
    then have "\<exists>l \<in> set after. l_price l = NaN"
      by (rule bexI [rotated]) simp
    then have "\<not> numericPrices after"
      by (simp add: numericPrices_def list_all_iff)
    then show "\<not> sideSorted (pc_side change) after" by (simp add: sideSorted_def)
  qed
  have c7: "pc_asset_id change \<noteq> tid \<longrightarrow> applyChange tid change ob = ob"
    by (simp add: applyChange_def)
  have c8: "(\<forall>ch \<in> set (pcm_price_changes m). pc_asset_id ch \<noteq> tokenId c) \<longrightarrow>
            bids (orderBook (handlePriceChange m c)) = bids (orderBook c)
            \<and> asks (orderBook (handlePriceChange m c)) = asks (orderBook c)"
    using foldl_applyChange_foreign [of "pcm_price_changes m" "tokenId c" "orderBook c"]
    by (simp add: handlePriceChange_sides)
  show ?thesis
    using c1 c2 c3 c4 c5 c6 c7 c8 handlePriceChange_sides [of m c] by blast
qed

theorem price_change_delta_witness:
  "sideSorted BUY [\<lparr>l_price = Fin (1 / 2), l_size = Fin 1\<rparr>, \<lparr>l_price = Fin (1 / 4), l_size = Fin 2\<rparr>,
                   \<lparr>l_price = Fin (1 / 4), l_size = Fin 3\<rparr>]
   \<and> parseFloat ''0.25'' \<noteq> NaN \<and> parseFloat ''0.375'' \<noteq> NaN
   \<and> bids (applyChange ''111''
        \<lparr>pc_asset_id = ''111'', pc_price = ''0.25'', pc_size = ''0'', pc_side = BUY\<rparr>
        \<lparr>bids = [\<lparr>l_price = Fin (1 / 2), l_size = Fin 1\<rparr>, \<lparr>l_price = Fin (1 / 4), l_size = Fin 2\<rparr>,
                 \<lparr>l_price = Fin (1 / 4), l_size = Fin 3\<rparr>],
         asks = [], lastUpdate = Fin 0\<rparr>)
     = [\<lparr>l_price = Fin (1 / 2), l_size = Fin 1\<rparr>, \<lparr>l_price = Fin (1 / 4), l_size = Fin 3\<rparr>]
   \<and> bids (applyChange ''111''
        \<lparr>pc_asset_id = ''111'', pc_price = ''0.25'', pc_size = ''7'', pc_side = BUY\<rparr>
        \<lparr>bids = [\<lparr>l_price = Fin (1 / 2), l_size = Fin 1\<rparr>, \<lparr>l_price = Fin (1 / 4), l_size = Fin 2\<rparr>,
                 \<lparr>l_price = Fin (1 / 4), l_size = Fin 3\<rparr>],
         asks = [], lastUpdate = Fin 0\<rparr>)
     = [\<lparr>l_price = Fin (1 / 2), l_size = Fin 1\<rparr>, \<lparr>l_price = Fin (1 / 4), l_size = Fin 7\<rparr>,
        \<lparr>l_price = Fin (1 / 4), l_size = Fin 3\<rparr>]
   \<and> sideSorted BUY (bids (applyChange ''111''
        \<lparr>pc_asset_id = ''111'', pc_price = ''0.375'', pc_size = ''7'', pc_side = BUY\<rparr>
        \<lparr>bids = [\<lparr>l_price = Fin (1 / 2), l_size = Fin 1\<rparr>, \<lparr>l_price = Fin (1 / 4), l_size = Fin 2\<rparr>,
                 \<lparr>l_price = Fin (1 / 4), l_size = Fin 3\<rparr>],
         asks = [], lastUpdate = Fin 0\<rparr>))
   \<and> parseFloat ''abc'' = NaN \<and> \<not> js_eq (parseFloat ''7'') (Fin 0)
   \<and> \<not> sideSorted BUY (bids (applyChange ''111''
        \<lparr>pc_asset_id = ''111'', pc_price = ''abc'', pc_size = ''7'', pc_side = BUY\<rparr>
        \<lparr>bids = [\<lparr>l_price = Fin (1 / 2), l_size = Fin 1\<rparr>, \<lparr>l_price = Fin (1 / 4), l_size = Fin 2\<rparr>,
                 \<lparr>l_price = Fin (1 / 4), l_size = Fin 3\<rparr>],
         asks = [], lastUpdate = Fin 0\<rparr>))
   \<and> pc_asset_id \<lparr>pc_asset_id = ''222'', pc_price = ''0.5'', pc_size = ''7'', pc_side = BUY\<rparr>
       \<noteq> tokenId (newClient ''111'')
   \<and> orderBook (handlePriceChange
        \<lparr>pcm_price_changes =
           [\<lparr>pc_asset_id = ''222'', pc_price = ''0.5'', pc_size = ''7'', pc_side = BUY\<rparr>],
         pcm_timestamp = ''18''\<rparr> (newClient ''111''))
     = \<lparr>bids = [], asks = [], lastUpdate = Fin 18\<rparr>"
proof -
  let ?ls = "[\<lparr>l_price = Fin (1 / 2), l_size = Fin 1\<rparr>, \<lparr>l_price = Fin (1 / 4), l_size = Fin 2\<rparr>,
              \<lparr>l_price = Fin (1 / 4), l_size = Fin 3\<rparr>]"
  let ?ob = "\<lparr>bids = ?ls, asks = [], lastUpdate = Fin 0\<rparr>"
  let ?c1 = "\<lparr>pc_asset_id = ''111'', pc_price = ''0.25'', pc_size = ''0'', pc_side = BUY\<rparr>"
  let ?c2 = "\<lparr>pc_asset_id = ''111'', pc_price = ''0.25'', pc_size = ''7'', pc_side = BUY\<rparr>"
  let ?c3 = "\<lparr>pc_asset_id = ''111'', pc_price = ''0.375'', pc_size = ''7'', pc_side = BUY\<rparr>"
  let ?c4 = "\<lparr>pc_asset_id = ''111'', pc_price = ''abc'', pc_size = ''7'', pc_side = BUY\<rparr>"
  let ?f = "\<lparr>pc_asset_id = ''222'', pc_price = ''0.5'', pc_size = ''7'', pc_side = BUY\<rparr>"
  let ?m = "\<lparr>pcm_price_changes = [?f], pcm_timestamp = ''18''\<rparr>"
  have srt: "sideSorted BUY ?ls"
    by (simp add: sideSorted_def numericPrices_def descending_def)
  have p1: "parseFloat ''0.25'' = Fin (1 / 4)" by code_simp
  have p2: "parseFloat ''0.375'' = Fin (3 / 8)" by code_simp
  have p3: "parseFloat ''abc'' = NaN" by code_simp
  have s0: "parseFloat ''0'' = Fin 0" by code_simp
  have s7: "parseFloat ''7'' = Fin 7" by code_simp
  have ts: "parseInt ''18'' = Fin 18" by code_simp
  have nz: "\<not> js_eq (Fin 7) (Fin 0)" by (simp add: js_eq_def)
  have r1: "bids (applyChange ''111'' ?c1 ?ob)
            = [\<lparr>l_price = Fin (1 / 2), l_size = Fin 1\<rparr>, \<lparr>l_price = Fin (1 / 4), l_size = Fin 3\<rparr>]"
  proof -
    have lv: "?ls = sideLevels (pc_side ?c1) ?ob" by (simp add: sideLevels_def)
    have af: "bids (applyChange ''111'' ?c1 ?ob)
              = sideLevels (pc_side ?c1) (applyChange ''111'' ?c1 ?ob)"
      by (simp add: sideLevels_def)
    have p: "Fin (1 / 4) = parseFloat (pc_price ?c1)" by (simp add: p1)
    have s: "Fin 0 = parseFloat (pc_size ?c1)" by (simp add: s0)
    have ex: "pc_asset_id ?c1 = ''111'' \<and> sideSorted (pc_side ?c1) ?ls \<and> Fin (1 / 4) \<noteq> NaN
              \<and> (\<exists>l \<in> set ?ls. l_price l = Fin (1 / 4)) \<and> Fin 0 = Fin 0"
      using srt by simp
    from price_change_delta [OF lv af p s, THEN conjunct1, rule_format, OF ex]
    have "bids (applyChange ''111'' ?c1 ?ob) = removeFirst (Fin (1 / 4)) ?ls" .
    then show ?thesis by simp
  qed
  have r2: "bids (applyChange ''111'' ?c2 ?ob)
            = [\<lparr>l_price = Fin (1 / 2), l_size = Fin 1\<rparr>, \<lparr>l_price = Fin (1 / 4), l_size = Fin 7\<rparr>,
               \<lparr>l_price = Fin (1 / 4), l_size = Fin 3\<rparr>]"
  proof -
    have lv: "?ls = sideLevels (pc_side ?c2) ?ob" by (simp add: sideLevels_def)
    have af: "bids (applyChange ''111'' ?c2 ?ob)
              = sideLevels (pc_side ?c2) (applyChange ''111'' ?c2 ?ob)"
      by (simp add: sideLevels_def)
    have p: "Fin (1 / 4) = parseFloat (pc_price ?c2)" by (simp add: p1)
    have s: "Fin 7 = parseFloat (pc_size ?c2)" by (simp add: s7)
    have ex: "pc_asset_id ?c2 = ''111'' \<and> sideSorted (pc_side ?c2) ?ls \<and> Fin (1 / 4) \<noteq> NaN
              \<and> (\<exists>l \<in> set ?ls. l_price l = Fin (1 / 4)) \<and> Fin 0 < Fin 7"
      using srt by simp
    from price_change_delta [OF lv af p s, THEN conjunct2, THEN conjunct1, rule_format,
        OF ex, THEN conjunct1]
    have "bids (applyChange ''111'' ?c2 ?ob) = resizeFirst (Fin (1 / 4)) (Fin 7) ?ls" .
    then show ?thesis by simp
  qed
  have r3: "sideSorted BUY (bids (applyChange ''111'' ?c3 ?ob))"
  proof -
    have lv: "?ls = sideLevels (pc_side ?c3) ?ob" by (simp add: sideLevels_def)
    have af: "bids (applyChange ''111'' ?c3 ?ob)
              = sideLevels (pc_side ?c3) (applyChange ''111'' ?c3 ?ob)"
      by (simp add: sideLevels_def)
    have p: "Fin (3 / 8) = parseFloat (pc_price ?c3)" by (simp add: p2)
    have s: "Fin 7 = parseFloat (pc_size ?c3)" by (simp add: s7)
    have own: "pc_asset_id ?c3 = ''111'' \<and> sideSorted (pc_side ?c3) ?ls \<and> Fin (3 / 8) \<noteq> NaN"
      using srt by simp
    from price_change_delta [OF lv af p s, THEN conjunct2, THEN conjunct2,
        THEN conjunct2, THEN conjunct1, rule_format, OF own, THEN conjunct1]
    have "sideSorted (pc_side ?c3) (bids (applyChange ''111'' ?c3 ?ob))" .
    then show ?thesis by simp
  qed
  have r4: "\<not> sideSorted BUY (bids (applyChange ''111'' ?c4 ?ob))"
  proof -
    have lv: "?ls = sideLevels (pc_side ?c4) ?ob" by (simp add: sideLevels_def)
    have af: "bids (applyChange ''111'' ?c4 ?ob)
              = sideLevels (pc_side ?c4) (applyChange ''111'' ?c4 ?ob)"
      by (simp add: sideLevels_def)
    have p: "NaN = parseFloat (pc_price ?c4)" by (simp add: p3)
    have s: "Fin 7 = parseFloat (pc_size ?c4)" by (simp add: s7)
    have bad: "pc_asset_id ?c4 = ''111'' \<and> NaN = NaN \<and> \<not> js_eq (Fin 7) (Fin 0)"
      using nz by simp
    from price_change_delta [OF lv af p s, THEN conjunct2, THEN conjunct2,
        THEN conjunct2, THEN conjunct2, THEN conjunct2, THEN conjunct1, rule_format, OF bad,
        THEN conjunct2]
    have "\<not> sideSorted (pc_side ?c4) (bids (applyChange ''111'' ?c4 ?ob))" .
    then show ?thesis by simp
  qed
  have fr: "\<forall>ch \<in> set (pcm_price_changes ?m). pc_asset_id ch \<noteq> tokenId (newClient ''111'')"
    by (simp add: newClient_def)
  have r5: "orderBook (handlePriceChange ?m (newClient ''111''))
            = \<lparr>bids = [], asks = [], lastUpdate = Fin 18\<rparr>"
  proof -
    note t = price_change_delta [OF refl refl refl refl, of _ _ _ ?m "newClient ''111''",
        THEN conjunct2, THEN conjunct2, THEN conjunct2, THEN conjunct2, THEN conjunct2,
        THEN conjunct2, THEN conjunct2, THEN conjunct2, THEN conjunct2]
    have lu: "lastUpdate (orderBook (handlePriceChange ?m (newClient ''111''))) = Fin 18"
      using t [THEN conjunct1] by (simp add: ts)
    have lvls: "bids (orderBook (handlePriceChange ?m (newClient ''111'')))
                  = bids (orderBook (newClient ''111''))
                \<and> asks (orderBook (handlePriceChange ?m (newClient ''111'')))
                  = asks (orderBook (newClient ''111''))"
      using t [THEN conjunct2, THEN mp, OF fr] .
    show ?thesis using lu lvls by (simp add: newClient_def OrderBook.equality)
  qed
  have fr': "pc_asset_id ?f \<noteq> tokenId (newClient ''111'')"
    by (simp add: newClient_def)
  show ?thesis using srt r1 r2 r3 r4 r5 nz fr' by (simp add: p1 p2 p3 s7)
qed

section \<open>Posting a fill\<close>



section \<open>The total cost of the ledger\<close>

text \<open>
  C1 says that the total cost of the ledger is the sum of the total costs of the live
  positions after every sequence of fills.  The ledger of src/portfolio/portfolio.ts keeps
  the total by adding and subtracting on each fill and never recomputes it.  After a BUY
  of size 0 that opens a position, a second BUY of size 0 (the average price becomes
  \<open>0 / 0\<close>) and a SELL of size 0, the position is deleted, so the sum over the live
  positions is 0, while the total cost kept by the ledger is NaN.
\<close>

theorem ledger_totalCost_accumulated:
  "positions (portfolio (runLedger
      [AddTrade ''t'' ''Yes'' BUY (Fin (1 / 2)) (Fin 0) (Fin 1),
       AddTrade ''t'' ''Yes'' BUY (Fin (1 / 2)) (Fin 0) (Fin 2),
       AddTrade ''t'' ''Yes'' SELL (Fin (1 / 2)) (Fin 0) (Fin 3)])) = []
   \<and> sumTotalCost [] = Fin 0
   \<and> totalCost (portfolio (runLedger
      [AddTrade ''t'' ''Yes'' BUY (Fin (1 / 2)) (Fin 0) (Fin 1),
       AddTrade ''t'' ''Yes'' BUY (Fin (1 / 2)) (Fin 0) (Fin 2),
       AddTrade ''t'' ''Yes'' SELL (Fin (1 / 2)) (Fin 0) (Fin 3)])) = NaN"
  by code_simp

section \<open>The execution price\<close>




section \<open>The PollBuy strategy\<close>

text \<open>
  C4, as stated, fails at the first evaluation: \<open>initialize\<close> sets the time of the last
  execution to the clock, so an evaluation one second after \<open>initialize\<close> (the period
  of the simulator's timer) produces no action.
\<close>

theorem PollBuy_first_evaluation_counterexample:
  "\<not> shouldExecute (fst (PollBuy_evaluate 2000
        \<lparr>ctx_tokenId = ''111'', ctx_marketName = ''m'', ctx_outcome = ''Yes'',
         ctx_currentPrice = Fin (1 / 2), ctx_bestBid = Fin (2 / 5), ctx_bestAsk = Fin (1 / 2),
         ctx_timestamp = Fin 1000\<rparr>
        (PollBuy_initialize 1000
          \<lparr>ctx_tokenId = ''111'', ctx_marketName = ''m'', ctx_outcome = ''Yes'',
           ctx_currentPrice = Fin (1 / 2), ctx_bestBid = Fin (2 / 5), ctx_bestAsk = Fin (1 / 2),
           ctx_timestamp = Fin 1000\<rparr>
          (newPollBuyStrategy
            \<lparr>cfg_name = ''PollBuy'', cfg_enabled = True, cfg_intervalSeconds = Some (Fin 15),
             cfg_buySize = Some (Fin 1), cfg_targetTokenId = Some ''111'',
             cfg_targetOutcome = Some ''Yes''\<rparr>))))"
  by (simp add: PollBuy_evaluate_def PollBuy_initialize_def newPollBuyStrategy_def Let_def
      js_or_undef_def js_or_def truthy_def minus_jsnum_def nonEmpty_def)

text \<open>
  C4, amended.  For an enabled PollBuy strategy with \<open>intervalSeconds = 15\<close> that has
  been initialized at clock reading \<open>t0\<close>, an evaluation at reading \<open>now\<close> produces a BUY
  intent (of the configured size, with no explicit price) if and only if at least 15000 ms
  have passed since the previous evaluation that fired, or since \<open>t0\<close> when none has
  fired yet; every other evaluation produces no action.  So the first evaluation fires
  only when it comes at least 15000 ms after \<open>initialize\<close>.
\<close>

theorem PollBuy_fires_after_interval:
  assumes en: "cfg_enabled config"
    and iv: "cfg_intervalSeconds config = Some (Fin 15)"
    and s: "s = PollBuy_initialize t0 ctx (newPollBuyStrategy config)"
    and rs: "results = PollBuy_results ctx s (earlier @ [now])"
  shows "shouldExecute (last results)
           = (15000 \<le> now - previousFire t0 earlier (butlast results))
       \<and> trade (last results)
           = (if shouldExecute (last results)
              then Some \<lparr>ti_side = BUY, ti_size = js_or_undef (cfg_buySize config) (Fin 1),
                         ti_price = None, ti_tokenId = nonEmpty (targetTokenId s)\<rparr>
              else None)
       \<and> (earlier = [] \<longrightarrow> shouldExecute (last results) = (15000 \<le> now - t0))"
proof -
  let ?s1 = "PollBuy_after ctx s earlier"
  have c: "pb_config s = config" and l0: "lastExecutionTime s = Fin (of_int t0)"
    unfolding s by (simp_all add: PollBuy_initialize_def newPollBuyStrategy_def)
  have c1: "cfg_enabled (pb_config ?s1)" "cfg_intervalSeconds (pb_config ?s1) = Some (Fin 15)"
    using en iv c by (simp_all add: PollBuy_after_frame)
  have l1: "lastExecutionTime ?s1
            = Fin (of_int (previousFire t0 earlier (PollBuy_results ctx s earlier)))"
    using PollBuy_after_lastExecutionTime [of s t0 ctx earlier] en iv c l0 by simp
  have la: "last results = fst (PollBuy_evaluate now ctx ?s1)"
    and bl: "butlast results = PollBuy_results ctx s earlier"
    unfolding rs by (simp_all add: PollBuy_results_snoc)
  have e: "previousFire t0 [] [] = t0" by (simp add: previousFire_def)
  show ?thesis
    unfolding la bl
    using PollBuy_evaluate_fires [OF c1 l1, of now ctx] c e
    by (auto simp: PollBuy_after_frame)
qed

theorem PollBuy_fires_after_interval_witness:
  "cfg_enabled \<lparr>cfg_name = ''PollBuy'', cfg_enabled = True, cfg_intervalSeconds = Some (Fin 15),
                 cfg_buySize = Some (Fin 1), cfg_targetTokenId = Some ''111'',
                 cfg_targetOutcome = Some ''Yes''\<rparr>
   \<and> map shouldExecute (PollBuy_results
        \<lparr>ctx_tokenId = ''111'', ctx_marketName = ''m'', ctx_outcome = ''Yes'',
         ctx_currentPrice = Fin (1 / 2), ctx_bestBid = Fin (2 / 5), ctx_bestAsk = Fin (1 / 2),
         ctx_timestamp = Fin 1000\<rparr>
        (PollBuy_initialize 1000
          \<lparr>ctx_tokenId = ''111'', ctx_marketName = ''m'', ctx_outcome = ''Yes'',
           ctx_currentPrice = Fin (1 / 2), ctx_bestBid = Fin (2 / 5), ctx_bestAsk = Fin (1 / 2),
           ctx_timestamp = Fin 1000\<rparr>
          (newPollBuyStrategy
            \<lparr>cfg_name = ''PollBuy'', cfg_enabled = True, cfg_intervalSeconds = Some (Fin 15),
             cfg_buySize = Some (Fin 1), cfg_targetTokenId = Some ''111'',
             cfg_targetOutcome = Some ''Yes''\<rparr>))
        [2000, 16000]) = [False, True]
   \<and> shouldExecute (last (PollBuy_results
        \<lparr>ctx_tokenId = ''111'', ctx_marketName = ''m'', ctx_outcome = ''Yes'',
         ctx_currentPrice = Fin (1 / 2), ctx_bestBid = Fin (2 / 5), ctx_bestAsk = Fin (1 / 2),
         ctx_timestamp = Fin 1000\<rparr>
        (PollBuy_initialize 1000
          \<lparr>ctx_tokenId = ''111'', ctx_marketName = ''m'', ctx_outcome = ''Yes'',
           ctx_currentPrice = Fin (1 / 2), ctx_bestBid = Fin (2 / 5), ctx_bestAsk = Fin (1 / 2),
           ctx_timestamp = Fin 1000\<rparr>
          (newPollBuyStrategy
            \<lparr>cfg_name = ''PollBuy'', cfg_enabled = True, cfg_intervalSeconds = Some (Fin 15),
             cfg_buySize = Some (Fin 1), cfg_targetTokenId = Some ''111'',
             cfg_targetOutcome = Some ''Yes''\<rparr>))
        ([2000, 16000] @ [31000])))"
proof -
  let ?cfg = "\<lparr>cfg_name = ''PollBuy'', cfg_enabled = True, cfg_intervalSeconds = Some (Fin 15),
               cfg_buySize = Some (Fin 1), cfg_targetTokenId = Some ''111'',
               cfg_targetOutcome = Some ''Yes''\<rparr>"
  let ?ctx = "\<lparr>ctx_tokenId = ''111'', ctx_marketName = ''m'', ctx_outcome = ''Yes'',
               ctx_currentPrice = Fin (1 / 2), ctx_bestBid = Fin (2 / 5),
               ctx_bestAsk = Fin (1 / 2), ctx_timestamp = Fin 1000\<rparr>"
  let ?s = "PollBuy_initialize 1000 ?ctx (newPollBuyStrategy ?cfg)"
  have en: "cfg_enabled ?cfg" and iv: "cfg_intervalSeconds ?cfg = Some (Fin 15)"
    by simp_all
  have e: "map shouldExecute (PollBuy_results ?ctx ?s [2000, 16000]) = [False, True]"
    by (simp add: PollBuy_evaluate_def PollBuy_initialize_def newPollBuyStrategy_def Let_def
        js_or_undef_def js_or_def truthy_def minus_jsnum_def nonEmpty_def)
  have bl: "butlast (PollBuy_results ?ctx ?s ([2000, 16000] @ [31000]))
            = PollBuy_results ?ctx ?s [2000, 16000]"
    by (simp add: PollBuy_results_snoc)
  have pf: "previousFire 1000 [2000, 16000] (PollBuy_results ?ctx ?s [2000, 16000]) = 16000"
    using e by (simp add: previousFire_def)
  from PollBuy_fires_after_interval [OF en iv refl refl,
      where ?t0.0 = 1000 and ctx = ?ctx and earlier = "[2000, 16000]" and now = 31000,
      THEN conjunct1]
  have "shouldExecute (last (PollBuy_results ?ctx ?s ([2000, 16000] @ [31000])))"
    by (simp only: bl pf)
  then show ?thesis using en e by simp
qed

section \<open>Ticks before the context is established\<close>

text \<open>
  C8.  A tick on a simulator without a context returns the simulator as it is: no
  strategy is evaluated (whatever its \<open>evaluate\<close> does) and no trade is executed.  In the
  dashboard the simulator has no context exactly as long as no feed update has carried an
  order book with both sides populated; up to then the strategies are in the state in
  which they were added, and there is neither a simulated trade nor a position.
\<close>

theorem tick_without_context:
  "(currentContext sim = None \<longrightarrow> evaluateStrategies cls now newId sim = sim)
   \<and> (currentContext (simulator (runDashboard cls (newDashboard tid mn oc ss) events)) = None)
       = list_all (\<lambda>ev. \<not> bothSidesPopulated ev) events
   \<and> (list_all (\<lambda>ev. \<not> bothSidesPopulated ev) events \<longrightarrow>
        strategies (simulator (runDashboard cls (newDashboard tid mn oc ss) events)) = ss
        \<and> simulatedTrades (simulator (runDashboard cls (newDashboard tid mn oc ss) events)) = []
        \<and> positions (portfolio (sim_portfolio
             (simulator (runDashboard cls (newDashboard tid mn oc ss) events)))) = [])"
proof -
  let ?d = "runDashboard cls (newDashboard tid mn oc ss) events"
  have a: "list_all (\<lambda>ev. \<not> bothSidesPopulated ev) events \<Longrightarrow> idle ss ?d"
    using idle_run [OF idle_newDashboard] by blast
  have b: "\<not> list_all (\<lambda>ev. \<not> bothSidesPopulated ev) events \<Longrightarrow> started ?d"
    using run_started [OF idle_newDashboard] by blast
  have c: "(currentContext (simulator ?d) = None)
           = list_all (\<lambda>ev. \<not> bothSidesPopulated ev) events"
  proof (cases "list_all (\<lambda>ev. \<not> bothSidesPopulated ev) events")
    case True
    then show ?thesis using a by (simp add: idle_def)
  next
    case False
    then show ?thesis using b by (simp add: started_def)
  qed
  show ?thesis
    using a c by (simp add: evaluateStrategies_no_context idle_def)
qed

theorem tick_without_context_witness:
  "currentContext ((newSimulator :: nat StrategySimulator)\<lparr>strategies := [0]\<rparr>) = None
   \<and> evaluateStrategies
        \<lparr>getName = (\<lambda>n. ''count''), isEnabled = (\<lambda>n. True), initialize = (\<lambda>now c n. n),
         evaluate = (\<lambda>now c n. (Some \<lparr>shouldExecute = False, trade = None\<rparr>, Suc n)),
         onTradeExecuted = (\<lambda>f n. n), cleanup = (\<lambda>n. n)\<rparr>
        900 (\<lambda>n. ''id'') ((newSimulator :: nat StrategySimulator)\<lparr>strategies := [0]\<rparr>)
       = (newSimulator :: nat StrategySimulator)\<lparr>strategies := [0]\<rparr>
   \<and> list_all (\<lambda>ev. \<not> bothSidesPopulated ev)
        [FeedUpdate 500 \<lparr>bids = [\<lparr>l_price = Fin (2 / 5), l_size = Fin 5\<rparr>], asks = [],
                          lastUpdate = Fin 0\<rparr>,
         Tick 900 (\<lambda>n. ''id'')]
   \<and> strategies (simulator (runDashboard
        \<lparr>getName = (\<lambda>n. ''count''), isEnabled = (\<lambda>n. True), initialize = (\<lambda>now c n. n),
         evaluate = (\<lambda>now c n. (Some \<lparr>shouldExecute = False, trade = None\<rparr>, Suc n)),
         onTradeExecuted = (\<lambda>f n. n), cleanup = (\<lambda>n. n)\<rparr>
        (newDashboard ''111'' ''m'' ''Yes'' [0 :: nat])
        [FeedUpdate 500 \<lparr>bids = [\<lparr>l_price = Fin (2 / 5), l_size = Fin 5\<rparr>], asks = [],
                          lastUpdate = Fin 0\<rparr>,
         Tick 900 (\<lambda>n. ''id'')])) = [0]"
proof -
  let ?cls = "\<lparr>getName = (\<lambda>n :: nat. ''count''), isEnabled = (\<lambda>n. True),
               initialize = (\<lambda>now c n. n),
               evaluate = (\<lambda>now c n. (Some \<lparr>shouldExecute = False, trade = None\<rparr>, Suc n)),
               onTradeExecuted = (\<lambda>f n. n), cleanup = (\<lambda>n. n)\<rparr>"
  let ?sim = "(newSimulator :: nat StrategySimulator)\<lparr>strategies := [0]\<rparr>"
  let ?evs = "[FeedUpdate 500 \<lparr>bids = [\<lparr>l_price = Fin (2 / 5), l_size = Fin 5\<rparr>], asks = [],
                                lastUpdate = Fin 0\<rparr>,
               Tick 900 (\<lambda>n. ''id'')]"
  have n: "currentContext ?sim = None" by (simp add: newSimulator_def)
  have l: "list_all (\<lambda>ev. \<not> bothSidesPopulated ev) ?evs" by simp
  note t = tick_without_context [of ?sim ?cls 900 "\<lambda>n. ''id''" "''111''" "''m''" "''Yes''"
      "[0]" ?evs]
  have a: "evaluateStrategies ?cls 900 (\<lambda>n. ''id'') ?sim = ?sim"
    using t [THEN conjunct1] n by blast
  have b: "strategies (simulator (runDashboard ?cls (newDashboard ''111'' ''m'' ''Yes'' [0]) ?evs))
           = [0]"
    using t [THEN conjunct2, THEN conjunct2] l by blast
  show ?thesis using n a l b by blast
qed

section \<open>What a snapshot and the feed callback hand out\<close>

text \<open>
  C9, as stated, fails.  The array of a ledger snapshot holds the \<open>Position\<close> objects of
  the ledger themselves, and \<open>addTrade\<close> changes a position in place: a snapshot taken
  after a BUY of 2 shares lists 2 shares, and the same snapshot lists 5 shares once a BUY
  of 3 more has been posted.  The feed client calls its handler with \<open>this.trades\<close> and
  \<open>this.orderBook\<close>: the order book that the handler received with no bid has a bid at
  0.5 once a price change has been applied.
\<close>

theorem snapshot_aliasing_counterexample:
  "map shares (snapshotPositions
      (addTrade_s ''t'' ''Yes'' BUY (Fin (3 / 10)) (Fin 2) (Fin 1) newLedgerStore)
      (getSnapshot_s (Fin 5)
        (addTrade_s ''t'' ''Yes'' BUY (Fin (3 / 10)) (Fin 2) (Fin 1) newLedgerStore)))
     = [Fin 2]
   \<and> map shares (snapshotPositions
      (addTrade_s ''t'' ''Yes'' BUY (Fin (2 / 5)) (Fin 3) (Fin 9)
        (addTrade_s ''t'' ''Yes'' BUY (Fin (3 / 10)) (Fin 2) (Fin 1) newLedgerStore))
      (getSnapshot_s (Fin 5)
        (addTrade_s ''t'' ''Yes'' BUY (Fin (3 / 10)) (Fin 2) (Fin 1) newLedgerStore)))
     = [Fin 5]
   \<and> fst (snd (notifyUpdate_s True (newClientStore ''111''))) = 1
   \<and> bids (books (newClientStore ''111'') 1) = []
   \<and> bids (books
        (handlePriceChange_s
          \<lparr>pcm_price_changes =
             [\<lparr>pc_asset_id = ''111'', pc_price = ''0.5'', pc_size = ''4'', pc_side = BUY\<rparr>],
           pcm_timestamp = ''17''\<rparr>
          (newClientStore ''111'')) 1)
     = [\<lparr>l_price = Fin (1 / 2), l_size = Fin 4\<rparr>]"
proof -
  have p: "parseFloat ''0.5'' = Fin (1 / 2)" "parseFloat ''4'' = Fin 4" by code_simp+
  show ?thesis
    by (simp add: snapshotPositions_def getSnapshot_s_def addTrade_s_def postFill_s_def
        recalculateValue_s_def newLedgerStore_def Let_def notifyUpdate_s_def
        newClientStore_def handlePriceChange_s_def applyChange_def updateLevel_def p
        js_eq_def)
qed

text \<open>
  C9, amended.  \<open>getSnapshot\<close> returns a new record that holds copies of the numbers
  \<open>totalCost\<close>, \<open>currentValue\<close>, \<open>unrealizedPnL\<close> and \<open>realizedPnL\<close> and a new array of
  the positions; the array holds references to the ledger's own \<open>Position\<close> objects.  A
  later BUY on an instrument that has a position keeps the object and writes it in place,
  and so does a later SELL that executes (the held shares are at least the size), also
  when it then removes the position from the map of the ledger: the position read through
  an earlier snapshot changes with it.  A SELL of more than the held shares, or on an
  instrument without a position, writes no object; a BUY that opens a position creates a
  new object; and a fill on one instrument does not write the position of another.  A
  write to an object reached through a snapshot is a write to the ledger's position.  The
  feed update callback receives the client's own trades array and order book object: a
  later trade message writes that array in place and a later price change writes that
  order book in place.  A later book snapshot message installs a new order book object and
  leaves the one handed out before as it was.
\<close>

theorem snapshot_shares_objects:
  "r_positions (getSnapshot_s now st) = map snd (s_positions st)
   \<and> r_totalCost (getSnapshot_s now st) = s_totalCost st
   \<and> r_currentValue (getSnapshot_s now st) = s_currentValue st
   \<and> r_unrealizedPnL (getSnapshot_s now st) = s_unrealizedPnL st
   \<and> r_realizedPnL (getSnapshot_s now st) = s_realizedPnL st
   \<and> (map_of (s_positions st) tid = Some a \<longrightarrow>
        a \<in> set (r_positions (getSnapshot_s now st))
        \<and> s_positions (addTrade_s tid oc BUY price sz ts st) = s_positions st
        \<and> objects (addTrade_s tid oc BUY price sz ts st) a
            = (objects st a)
                \<lparr>averagePrice := (pos_totalCost (objects st a) + price * sz)
                                  / (shares (objects st a) + sz),
                 shares := shares (objects st a) + sz,
                 pos_totalCost := pos_totalCost (objects st a) + price * sz,
                 lastPurchaseTime := ts\<rparr>
        \<and> (sz \<le> shares (objects st a) \<longrightarrow>
             objects (addTrade_s tid oc SELL price sz ts st) a
               = (objects st a)
                   \<lparr>shares := shares (objects st a) - sz,
                    pos_totalCost := pos_totalCost (objects st a)
                                     - averagePrice (objects st a) * sz\<rparr>
             \<and> s_positions (addTrade_s tid oc SELL price sz ts st)
                 = (if js_eq (shares (objects st a) - sz) (Fin 0)
                    then AList.delete tid (s_positions st) else s_positions st))
        \<and> (\<not> sz \<le> shares (objects st a) \<longrightarrow>
             objects (addTrade_s tid oc SELL price sz ts st) = objects st
             \<and> s_positions (addTrade_s tid oc SELL price sz ts st) = s_positions st)
        \<and> getPosition tid (ledgerOf (st\<lparr>objects := (objects st)(a := p)\<rparr>)) = Some p)
   \<and> (map_of (s_positions st) tid = None \<longrightarrow>
        objects (addTrade_s tid oc SELL price sz ts st) = objects st
        \<and> s_positions (addTrade_s tid oc SELL price sz ts st) = s_positions st
        \<and> s_positions (addTrade_s tid oc BUY price sz ts st)
            = s_positions st @ [(tid, nextAddr st)]
        \<and> (\<forall>b. b \<noteq> nextAddr st \<longrightarrow>
              objects (addTrade_s tid oc BUY price sz ts st) b = objects st b))
   \<and> (k \<noteq> tid \<and> map_of (s_positions st) k = Some b \<and> storeOK st \<longrightarrow>
        objects (addTrade_s tid oc side price sz ts st) b = objects st b)
   \<and> notifyUpdate_s isConnected c = (c_trades c, c_orderBook c, isConnected)
   \<and> (c_trades c < c_next c \<longrightarrow>
        tradeArrays (handleTradeMessage_s tm c) (c_trades c)
          = mkTrade tm # tradeArrays c (c_trades c))
   \<and> c_orderBook (handlePriceChange_s pm c) = c_orderBook c
   \<and> books (handlePriceChange_s pm c) (c_orderBook c)
       = orderBook (handlePriceChange pm (clientOf c))
   \<and> (c_orderBook c < c_next c \<longrightarrow>
        books (handleBookMessage_s bm c) (c_orderBook c) = books c (c_orderBook c))"
proof -
  have mem: "map_of (s_positions st) tid = Some a \<Longrightarrow> a \<in> set (map snd (s_positions st))"
    by (metis map_of_SomeD image_eqI set_map snd_conv)
  have wr: "getPosition tid (ledgerOf (st\<lparr>objects := (objects st)(a := p)\<rparr>)) = Some p"
    if "map_of (s_positions st) tid = Some a"
    using that by (simp add: getPosition_def ledgerOf_def map_of_deref)
  have tr: "tradeArrays (handleTradeMessage_s tm c) (c_trades c)
            = mkTrade tm # tradeArrays c (c_trades c)"
    if "c_trades c < c_next c"
    using that by (simp add: handleTradeMessage_s_def Let_def)
  have bk: "books (handleBookMessage_s bm c) (c_orderBook c) = books c (c_orderBook c)"
    if "c_orderBook c < c_next c"
    using that by (simp add: handleBookMessage_s_def Let_def)
  have ex: "map_of (s_positions st) tid = Some a \<Longrightarrow>
        a \<in> set (r_positions (getSnapshot_s now st))
        \<and> s_positions (addTrade_s tid oc BUY price sz ts st) = s_positions st
        \<and> objects (addTrade_s tid oc BUY price sz ts st) a
            = (objects st a)
                \<lparr>averagePrice := (pos_totalCost (objects st a) + price * sz)
                                  / (shares (objects st a) + sz),
                 shares := shares (objects st a) + sz,
                 pos_totalCost := pos_totalCost (objects st a) + price * sz,
                 lastPurchaseTime := ts\<rparr>
        \<and> (sz \<le> shares (objects st a) \<longrightarrow>
             objects (addTrade_s tid oc SELL price sz ts st) a
               = (objects st a)
                   \<lparr>shares := shares (objects st a) - sz,
                    pos_totalCost := pos_totalCost (objects st a)
                                     - averagePrice (objects st a) * sz\<rparr>
             \<and> s_positions (addTrade_s tid oc SELL price sz ts st)
                 = (if js_eq (shares (objects st a) - sz) (Fin 0)
                    then AList.delete tid (s_positions st) else s_positions st))
        \<and> (\<not> sz \<le> shares (objects st a) \<longrightarrow>
             objects (addTrade_s tid oc SELL price sz ts st) = objects st
             \<and> s_positions (addTrade_s tid oc SELL price sz ts st) = s_positions st)"
    using mem
    by (simp add: getSnapshot_s_def addTrade_s_def postFill_s_def recalculateValue_s_def Let_def)
  have nx: "map_of (s_positions st) tid = None \<Longrightarrow>
        objects (addTrade_s tid oc SELL price sz ts st) = objects st
        \<and> s_positions (addTrade_s tid oc SELL price sz ts st) = s_positions st
        \<and> s_positions (addTrade_s tid oc BUY price sz ts st)
            = s_positions st @ [(tid, nextAddr st)]
        \<and> (\<forall>b. b \<noteq> nextAddr st \<longrightarrow>
              objects (addTrade_s tid oc BUY price sz ts st) b = objects st b)"
    by (simp add: addTrade_s_def postFill_s_def recalculateValue_s_def Let_def
        update_absent_append)
  have ot: "objects (addTrade_s tid oc side price sz ts st) b = objects st b"
    if "k \<noteq> tid" and kb: "map_of (s_positions st) k = Some b" and ok: "storeOK st"
  proof -
    have bl: "b < nextAddr st"
      using ok kb map_of_SomeD [OF kb] by (auto simp: storeOK_def list_all_iff)
    have ne: "map_of (s_positions st) tid = Some a' \<Longrightarrow> a' \<noteq> b" for a'
    proof
      assume t: "map_of (s_positions st) tid = Some a'" and e: "a' = b"
      have d: "distinct (map snd (s_positions st))" using ok by (simp add: storeOK_def)
      have "(tid, b) \<in> set (s_positions st)" "(k, b) \<in> set (s_positions st)"
        using map_of_SomeD [OF t] map_of_SomeD [OF kb] e by simp_all
      then have "tid = k" using d by (metis distinct_map inj_onD snd_conv prod.inject)
      then show False using \<open>k \<noteq> tid\<close> by simp
    qed
    show ?thesis
      using bl ne
      by (cases side; cases "map_of (s_positions st) tid")
         (auto simp: addTrade_s_def postFill_s_def recalculateValue_s_def Let_def)
  qed
  show ?thesis
    using ex nx ot wr tr bk
    by (simp add: getSnapshot_s_def notifyUpdate_s_def handlePriceChange_s_def
        handlePriceChange_def clientOf_def)
qed

theorem snapshot_shares_objects_witness:
  "map_of (s_positions (addTrade_s ''t'' ''Yes'' BUY (Fin (1 / 2)) (Fin 2) (Fin 1) newLedgerStore))
     ''t'' = Some 0
   \<and> r_positions (getSnapshot_s (Fin 5)
        (addTrade_s ''t'' ''Yes'' BUY (Fin (1 / 2)) (Fin 2) (Fin 1) newLedgerStore)) = [0]
   \<and> shares (objects
        (addTrade_s ''t'' ''Yes'' BUY (Fin (1 / 4)) (Fin 3) (Fin 9)
          (addTrade_s ''t'' ''Yes'' BUY (Fin (1 / 2)) (Fin 2) (Fin 1) newLedgerStore)) 0)
     = Fin 5
   \<and> Fin 2 \<le> shares (objects
        (addTrade_s ''t'' ''Yes'' BUY (Fin (1 / 2)) (Fin 2) (Fin 1) newLedgerStore) 0)
   \<and> shares (objects
        (addTrade_s ''t'' ''Yes'' SELL (Fin (1 / 4)) (Fin 2) (Fin 9)
          (addTrade_s ''t'' ''Yes'' BUY (Fin (1 / 2)) (Fin 2) (Fin 1) newLedgerStore)) 0)
     = Fin 0
   \<and> s_positions
        (addTrade_s ''t'' ''Yes'' SELL (Fin (1 / 4)) (Fin 2) (Fin 9)
          (addTrade_s ''t'' ''Yes'' BUY (Fin (1 / 2)) (Fin 2) (Fin 1) newLedgerStore)) = []
   \<and> \<not> Fin 6 \<le> shares (objects
        (addTrade_s ''t'' ''Yes'' BUY (Fin (1 / 2)) (Fin 2) (Fin 1) newLedgerStore) 0)
   \<and> objects
        (addTrade_s ''t'' ''Yes'' SELL (Fin (1 / 4)) (Fin 6) (Fin 9)
          (addTrade_s ''t'' ''Yes'' BUY (Fin (1 / 2)) (Fin 2) (Fin 1) newLedgerStore))
     = objects (addTrade_s ''t'' ''Yes'' BUY (Fin (1 / 2)) (Fin 2) (Fin 1) newLedgerStore)
   \<and> c_orderBook (newClientStore ''111'') < c_next (newClientStore ''111'')
   \<and> books (handleBookMessage_s
        \<lparr>bm_asset_id = ''111'', bm_bids = Some [\<lparr>os_price = ''0.5'', os_size = ''4''\<rparr>],
         bm_asks = Some [], bm_buys = None,
      bm_sells = None, bm_timestamp = ''17''\<rparr> (newClientStore ''111''))
        (c_orderBook (newClientStore ''111''))
     = \<lparr>bids = [], asks = [], lastUpdate = Fin 0\<rparr>"
proof -
  let ?st = "addTrade_s ''t'' ''Yes'' BUY (Fin (1 / 2)) (Fin 2) (Fin 1) newLedgerStore"
  let ?bm = "\<lparr>bm_asset_id = ''111'', bm_bids = Some [\<lparr>os_price = ''0.5'', os_size = ''4''\<rparr>],
              bm_asks = Some [], bm_buys = None,
      bm_sells = None, bm_timestamp = ''17''\<rparr>"
  have m: "map_of (s_positions ?st) ''t'' = Some 0"
    and sh: "shares (objects ?st 0) = Fin 2"
    and sp: "s_positions ?st = [(''t'', 0)]"
    by (simp_all add: addTrade_s_def postFill_s_def recalculateValue_s_def newLedgerStore_def
        Let_def)
  have lt: "c_orderBook (newClientStore ''111'') < c_next (newClientStore ''111'')"
    by (simp add: newClientStore_def)
  have le: "Fin 2 \<le> shares (objects ?st 0)" and nle: "\<not> Fin 6 \<le> shares (objects ?st 0)"
    by (simp_all add: sh)
  have z: "shares (objects ?st 0) - Fin 2 = Fin 0"
    by (simp add: sh minus_jsnum_def)
  note t = snapshot_shares_objects [of "Fin 5" ?st "''t''" 0 "''Yes''" "Fin (1 / 4)" _
      "Fin 9" "objects ?st 0" _ _ _ True "newClientStore ''111''"
      "\<lparr>lt_asset_id = ''111'', lt_price = ''0.5'', lt_side = SELL, lt_size = ''4'',
        lt_timestamp = ''17''\<rparr>"
      "\<lparr>pcm_price_changes = [], pcm_timestamp = ''17''\<rparr>" ?bm]
  note ex = t [THEN conjunct2, THEN conjunct2, THEN conjunct2, THEN conjunct2, THEN conjunct2,
      THEN conjunct1, rule_format, OF m]
  have a: "r_positions (getSnapshot_s (Fin 5) ?st) = [0]"
    using t [of "Fin 3", THEN conjunct1] by (simp add: sp)
  have b: "shares (objects (addTrade_s ''t'' ''Yes'' BUY (Fin (1 / 4)) (Fin 3) (Fin 9) ?st) 0)
           = Fin 5"
  proof -
    from ex [of "Fin 3", THEN conjunct2, THEN conjunct2, THEN conjunct1]
    have "shares (objects (addTrade_s ''t'' ''Yes'' BUY (Fin (1 / 4)) (Fin 3) (Fin 9) ?st) 0)
          = shares (objects ?st 0) + Fin 3"
      by simp
    then show ?thesis by (simp add: sh)
  qed
  note sell = ex [of "Fin 2", THEN conjunct2, THEN conjunct2, THEN conjunct2, THEN conjunct1,
      rule_format, OF le]
  have c1: "shares (objects (addTrade_s ''t'' ''Yes'' SELL (Fin (1 / 4)) (Fin 2) (Fin 9) ?st) 0)
            = Fin 0"
  proof -
    from sell [THEN conjunct1]
    have "shares (objects (addTrade_s ''t'' ''Yes'' SELL (Fin (1 / 4)) (Fin 2) (Fin 9) ?st) 0)
          = shares (objects ?st 0) - Fin 2"
      by simp
    then show ?thesis by (simp add: z)
  qed
  have c2: "s_positions (addTrade_s ''t'' ''Yes'' SELL (Fin (1 / 4)) (Fin 2) (Fin 9) ?st) = []"
    using sell [THEN conjunct2] by (simp add: z js_eq_def sp)
  have c3: "objects (addTrade_s ''t'' ''Yes'' SELL (Fin (1 / 4)) (Fin 6) (Fin 9) ?st)
            = objects ?st"
    using ex [of "Fin 6", THEN conjunct2, THEN conjunct2, THEN conjunct2, THEN conjunct2,
        THEN conjunct1, rule_format, OF nle, THEN conjunct1] .
  have c: "books (handleBookMessage_s ?bm (newClientStore ''111''))
             (c_orderBook (newClientStore ''111''))
           = books (newClientStore ''111'') (c_orderBook (newClientStore ''111''))"
    using t [of "Fin 3", THEN conjunct2, THEN conjunct2, THEN conjunct2, THEN conjunct2,
        THEN conjunct2, THEN conjunct2, THEN conjunct2, THEN conjunct2, THEN conjunct2,
        THEN conjunct2, THEN conjunct2, THEN conjunct2] lt
    by blast
  have d: "books (newClientStore ''111'') (c_orderBook (newClientStore ''111''))
           = \<lparr>bids = [], asks = [], lastUpdate = Fin 0\<rparr>"
    by (simp add: newClientStore_def)
  show ?thesis using m a b le c1 c2 nle c3 lt c d by simp
qed

end
